theory Spec2Isabelle
  imports Complex_Main "HOL-Library.Monad_Syntax"
begin

section \<open>Layer model of the Tiled map editor (layermodel.cpp)\<close>

text \<open>
  The C++ source works on a graph of objects: a \<open>MapDocument\<close> owns a \<open>Map\<close> (an
  ordered list of layers), a \<open>QUndoStack\<close> and a \<open>LayerModel\<close>; the layer model and
  the undo commands hold raw pointers to a document. The embedding keeps that graph:
  a heap maps the address of a document to the document, pointers are
  \<open>ptr option\<close> (\<open>None\<close> is the null pointer), and every operation returns an
  \<open>option\<close>: \<open>None\<close> stands for a run that has no defined behaviour in C++ (a null
  or dangling pointer is dereferenced, or \<open>QList::at\<close> is called out of range).

  C++ \<open>int\<close> values are modelled as \<open>int\<close>: the only arithmetic in the file is
  \<open>layerCount - index - 1\<close>, which stays within 32 bits for every row and layer index
  that is not negative (\<open>layerIndex_in_range\<close>). The opacity of a layer is a \<open>float\<close> and the value of an edit a \<open>qreal\<close>;
  the code only copies, converts and compares them, so they are type parameters
  \<open>'f\<close> and \<open>'d\<close>, with the conversions and the comparison as parameters of
  \<open>setData\<close>.
\<close>

subsection \<open>Data model\<close>

type_synonym ptr = nat

datatype LayerType = TileLayerType | ObjectGroupType | ImageLayerType

text \<open>Modelled from the spec: a layer has a name, a visibility, an opacity and a type
  tag (layer.h is not part of the sources).\<close>

record 'f Layer =
  name :: string
  visible :: bool
  opacity :: 'f
  layerType :: LayerType

text \<open>\<open>QModelIndex\<close> of Qt: a row, a column and the model it belongs to (here only
  whether that pointer is set). The default-constructed index is invalid.\<close>

record QModelIndex =
  row :: int
  column :: int
  hasModel :: bool

definition isValid :: "QModelIndex \<Rightarrow> bool" where
  "isValid i = (0 \<le> row i \<and> 0 \<le> column i \<and> hasModel i)"

definition invalidIndex :: QModelIndex where
  "invalidIndex = \<lparr>row = - 1, column = - 1, hasModel = False\<rparr>"

definition createIndex :: "int \<Rightarrow> int \<Rightarrow> QModelIndex" where
  "createIndex r c = \<lparr>row = r, column = c, hasModel = True\<rparr>"

text \<open>The item roles \<open>setData\<close> distinguishes; \<open>OpacityRole\<close> is the model's own user
  role, \<open>OtherRole\<close> any other role number.\<close>

datatype Role = DisplayRole | DecorationRole | EditRole | CheckStateRole | OpacityRole
  | OtherRole int

text \<open>A \<open>QVariant\<close> is read only through three conversions, so a variant is the
  triple of what they return; \<open>toDouble\<close> is \<open>None\<close> when Qt reports \<open>ok = false\<close>.\<close>

record 'd QVariant =
  toInt :: int
  toDouble :: "'d option"
  toString :: string

text \<open>\<open>Qt::Checked\<close> is the value 2 of the enumeration \<open>Qt::CheckState\<close>.\<close>

definition Qt_Checked :: int where
  "Qt_Checked = 2"

text \<open>The three undo commands. \<open>SetLayerVisible\<close> and \<open>SetLayerOpacity\<close> are the
  classes of the anonymous namespace; their fields share names in C++ and carry a
  prefix here.\<close>

record SetLayerVisible =
  vis_mMapDocument :: "ptr option"
  vis_mLayerIndex :: int
  mVisible :: bool

record 'f SetLayerOpacity =
  opa_mMapDocument :: "ptr option"
  opa_mLayerIndex :: int
  mOldOpacity :: 'f
  mNewOpacity :: 'f

text \<open>Modelled from the spec: the rename command (renamelayer.cpp is not part of the
  sources) holds the document, the layer index and the name it was built with.\<close>

record RenameLayer =
  ren_mMapDocument :: "ptr option"
  ren_mLayerIndex :: int
  mName :: string

datatype 'f QUndoCommand =
    VisibleCmd SetLayerVisible
  | OpacityCmd "'f SetLayerOpacity"
  | RenameCmd RenameLayer

text \<open>The undo stack belongs to Qt. The model keeps the calls made on it, in order,
  each \<open>Push\<close> with the command as it was handed over.\<close>

datatype 'f StackCall = BeginMacro string | Push "'f QUndoCommand" | EndMacro

text \<open>What the layer model tells its observers in the functions modelled here: its
  own signals, and the calls into \<open>QAbstractItemModel\<close> that announce a structural
  change.\<close>

datatype Notification =
    layerAboutToBeRemoved int
  | layerRemoved int
  | layerAboutToBeRenamed int
  | layerRenamed int
  | layerChanged int
  | dataChanged QModelIndex QModelIndex
  | beginRemoveRows int int
  | endRemoveRows
  | beginResetModel
  | endResetModel

text \<open>The fields of \<open>LayerModel\<close>. A \<open>Map\<close> is owned by exactly one document, so a
  \<open>Map*\<close> is the address of the owning document. Observers run synchronously inside
  an emission; \<open>emitted\<close> records every notification together with the layers the
  bound map held at that moment.\<close>

record 'f LayerModel =
  mMapDocument :: "ptr option"
  mMap :: "ptr option"
  emitted :: "(Notification \<times> 'f Layer list option) list"

text \<open>Modelled from the spec: the document owns the map (an ordered sequence of
  layers), the undo stack and its layer model (mapdocument.h and map.h are not part
  of the sources). As \<open>emitted\<close> does for the notifications, \<open>seenAtPush\<close> records for
  every \<open>push\<close> on the document's stack, in order, the layers the document's map held
  when \<open>push\<close> was called, that is before the command was executed.\<close>

record 'f MapDocument =
  layers :: "'f Layer list"
  undoStack :: "'f StackCall list"
  seenAtPush :: "'f Layer list list"
  layerModel :: "'f LayerModel"

type_synonym 'f heap = "ptr \<Rightarrow> 'f MapDocument option"

subsection \<open>Access to the heap\<close>

definition deref :: "'f heap \<Rightarrow> ptr option \<Rightarrow> 'f MapDocument option" where
  "deref h p = (case p of None \<Rightarrow> None | Some a \<Rightarrow> h a)"

text \<open>\<open>this\<close> of a \<open>LayerModel\<close> method is the address of the document owning it.\<close>

definition this_model :: "'f heap \<Rightarrow> ptr \<Rightarrow> 'f LayerModel option" where
  "this_model h self = map_option layerModel (h self)"

text \<open>Modelled from the spec: \<open>Map::layerCount\<close>, \<open>Map::layerAt\<close> (a \<open>QList::at\<close>,
  defined only within range) and \<open>Map::takeLayerAt\<close>, which removes the layer at an
  index and returns it (map.h is not part of the sources).\<close>

definition layerCount :: "'f Layer list \<Rightarrow> int" where
  "layerCount ls = int (length ls)"

definition layerAt :: "'f Layer list \<Rightarrow> int \<Rightarrow> 'f Layer option" where
  "layerAt ls i = (if 0 \<le> i \<and> i < layerCount ls then Some (ls ! nat i) else None)"

definition map_takeLayerAt :: "'f Layer list \<Rightarrow> int \<Rightarrow> ('f Layer \<times> 'f Layer list) option" where
  "map_takeLayerAt ls i =
     (if 0 \<le> i \<and> i < layerCount ls
      then Some (ls ! nat i, take (nat i) ls @ drop (Suc (nat i)) ls)
      else None)"

text \<open>Writing through a \<open>Layer*\<close> obtained from \<open>Map::layerAt\<close>: the layer at index
  \<open>i\<close> of the map \<open>mp\<close> is replaced by \<open>f\<close> of itself.\<close>

definition updateLayer ::
  "'f heap \<Rightarrow> ptr option \<Rightarrow> int \<Rightarrow> ('f Layer \<Rightarrow> 'f Layer) \<Rightarrow> 'f heap option" where
  "updateLayer h mp i f = do {
     a \<leftarrow> mp;
     d \<leftarrow> h a;
     layer \<leftarrow> layerAt (layers d) i;
     Some (h(a \<mapsto> d\<lparr>layers := (layers d)[nat i := f layer]\<rparr>))
   }"

definition setLayers :: "'f heap \<Rightarrow> ptr option \<Rightarrow> 'f Layer list \<Rightarrow> 'f heap option" where
  "setLayers h mp ls = do {
     a \<leftarrow> mp;
     d \<leftarrow> h a;
     Some (h(a \<mapsto> d\<lparr>layers := ls\<rparr>))
   }"

text \<open>Writing a field of \<open>this\<close>.\<close>

definition setModel ::
  "'f heap \<Rightarrow> ptr \<Rightarrow> ('f LayerModel \<Rightarrow> 'f LayerModel) \<Rightarrow> 'f heap option" where
  "setModel h self f = do {
     d \<leftarrow> h self;
     Some (h(self \<mapsto> d\<lparr>layerModel := f (layerModel d)\<rparr>))
   }"

text \<open>Modelled from the spec: \<open>MapDocument::map\<close>, \<open>MapDocument::undoStack\<close> and
  \<open>MapDocument::layerModel\<close> return the member objects of a document, each known by
  the address of its owner. Calling them through a null or dangling pointer is
  undefined.\<close>

definition doc_map :: "'f heap \<Rightarrow> ptr option \<Rightarrow> ptr option" where
  "doc_map h p = do { a \<leftarrow> p; d \<leftarrow> h a; Some a }"

definition doc_undoStack :: "'f heap \<Rightarrow> ptr option \<Rightarrow> ptr option" where
  "doc_undoStack h p = do { a \<leftarrow> p; d \<leftarrow> h a; Some a }"

definition doc_layerModel :: "'f heap \<Rightarrow> ptr option \<Rightarrow> ptr option" where
  "doc_layerModel h p = do { a \<leftarrow> p; d \<leftarrow> h a; Some a }"

text \<open>An emission appends the notification, with the layers an observer reading the
  bound map would find, to the record of \<open>this\<close>.\<close>

definition emit :: "'f heap \<Rightarrow> ptr \<Rightarrow> Notification \<Rightarrow> 'f heap option" where
  "emit h self n = do {
     lm \<leftarrow> this_model h self;
     let seen = map_option layers (deref h (mMap lm));
     setModel h self (\<lambda>m. m\<lparr>emitted := emitted m @ [(n, seen)]\<rparr>)
   }"

text \<open>A call on the undo stack of document \<open>sp\<close> is appended to its record.\<close>

definition stackCall :: "'f heap \<Rightarrow> ptr \<Rightarrow> 'f StackCall \<Rightarrow> 'f heap option" where
  "stackCall h sp c = do {
     d \<leftarrow> h sp;
     Some (h(sp \<mapsto> d\<lparr>undoStack := undoStack d @ [c]\<rparr>))
   }"

subsection \<open>LayerModel: rows and layer indices\<close>

definition LayerModel_init :: "'f LayerModel" where
  "LayerModel_init = \<lparr>mMapDocument = None, mMap = None, emitted = []\<rparr>"

definition rowCount :: "'f heap \<Rightarrow> ptr \<Rightarrow> QModelIndex \<Rightarrow> int option" where
  "rowCount h self parent = do {
     lm \<leftarrow> this_model h self;
     if isValid parent then Some 0
     else (case mMap lm of
             None \<Rightarrow> Some 0
           | Some mp \<Rightarrow> do { d \<leftarrow> h mp; Some (layerCount (layers d)) })
   }"

definition toLayerIndex :: "'f heap \<Rightarrow> ptr \<Rightarrow> QModelIndex \<Rightarrow> int option" where
  "toLayerIndex h self index = do {
     lm \<leftarrow> this_model h self;
     if isValid index then do {
       d \<leftarrow> deref h (mMap lm);
       Some (layerCount (layers d) - row index - 1)
     } else Some (- 1)
   }"

definition layerIndexToRow :: "'f heap \<Rightarrow> ptr \<Rightarrow> int \<Rightarrow> int option" where
  "layerIndexToRow h self layerIndex = do {
     lm \<leftarrow> this_model h self;
     d \<leftarrow> deref h (mMap lm);
     Some (layerCount (layers d) - layerIndex - 1)
   }"

text \<open>\<open>QAbstractListModel::index\<close> of Qt: a valid index when the row and column exist
  under the root (a list model has one column), the invalid index otherwise.\<close>

definition index :: "'f heap \<Rightarrow> ptr \<Rightarrow> int \<Rightarrow> int \<Rightarrow> QModelIndex option" where
  "index h self r c = do {
     n \<leftarrow> rowCount h self invalidIndex;
     Some (if 0 \<le> r \<and> 0 \<le> c \<and> r < n \<and> c < 1 then createIndex r c else invalidIndex)
   }"

subsection \<open>LayerModel: the mutators the undo commands call\<close>

definition setLayerVisible :: "'f heap \<Rightarrow> ptr \<Rightarrow> int \<Rightarrow> bool \<Rightarrow> 'f heap option" where
  "setLayerVisible h self layerIndex v = do {
     r \<leftarrow> layerIndexToRow h self layerIndex;
     modelIndex \<leftarrow> index h self r 0;
     lm \<leftarrow> this_model h self;
     h1 \<leftarrow> updateLayer h (mMap lm) layerIndex (\<lambda>layer. layer\<lparr>visible := v\<rparr>);
     h2 \<leftarrow> emit h1 self (dataChanged modelIndex modelIndex);
     emit h2 self (layerChanged layerIndex)
   }"

definition setLayerOpacity :: "'f heap \<Rightarrow> ptr \<Rightarrow> int \<Rightarrow> 'f \<Rightarrow> 'f heap option" where
  "setLayerOpacity h self layerIndex v = do {
     lm \<leftarrow> this_model h self;
     h1 \<leftarrow> updateLayer h (mMap lm) layerIndex (\<lambda>layer. layer\<lparr>opacity := v\<rparr>);
     emit h1 self (layerChanged layerIndex)
   }"

definition renameLayer :: "'f heap \<Rightarrow> ptr \<Rightarrow> int \<Rightarrow> string \<Rightarrow> 'f heap option" where
  "renameLayer h self layerIndex v = do {
     h1 \<leftarrow> emit h self (layerAboutToBeRenamed layerIndex);
     r \<leftarrow> layerIndexToRow h1 self layerIndex;
     modelIndex \<leftarrow> index h1 self r 0;
     lm \<leftarrow> this_model h1 self;
     h2 \<leftarrow> updateLayer h1 (mMap lm) layerIndex (\<lambda>layer. layer\<lparr>name := v\<rparr>);
     h3 \<leftarrow> emit h2 self (layerRenamed layerIndex);
     h4 \<leftarrow> emit h3 self (dataChanged modelIndex modelIndex);
     emit h4 self (layerChanged layerIndex)
   }"

subsection \<open>The undo commands\<close>

text \<open>The constructors. The label of a command (\<open>setText\<close>) is not read anywhere in
  the file and is left out.\<close>

definition new_SetLayerVisible :: "ptr option \<Rightarrow> int \<Rightarrow> bool \<Rightarrow> SetLayerVisible" where
  "new_SetLayerVisible mapDocument layerIndex v =
     \<lparr>vis_mMapDocument = mapDocument, vis_mLayerIndex = layerIndex, mVisible = v\<rparr>"

definition new_SetLayerOpacity ::
  "'f heap \<Rightarrow> ptr option \<Rightarrow> int \<Rightarrow> 'f \<Rightarrow> 'f SetLayerOpacity option" where
  "new_SetLayerOpacity h mapDocument layerIndex v = do {
     mp \<leftarrow> doc_map h mapDocument;
     d \<leftarrow> h mp;
     layer \<leftarrow> layerAt (layers d) layerIndex;
     Some \<lparr>opa_mMapDocument = mapDocument, opa_mLayerIndex = layerIndex,
           mOldOpacity = opacity layer, mNewOpacity = v\<rparr>
   }"

definition new_RenameLayer :: "ptr option \<Rightarrow> int \<Rightarrow> string \<Rightarrow> RenameLayer" where
  "new_RenameLayer mapDocument layerIndex v =
     \<lparr>ren_mMapDocument = mapDocument, ren_mLayerIndex = layerIndex, mName = v\<rparr>"

text \<open>\<open>SetLayerVisible::swap\<close> returns the heap and the command, whose \<open>mVisible\<close> it
  overwrites.\<close>

definition swap :: "'f heap \<Rightarrow> SetLayerVisible \<Rightarrow> ('f heap \<times> SetLayerVisible) option" where
  "swap h c = do {
     mp \<leftarrow> doc_map h (vis_mMapDocument c);
     d \<leftarrow> h mp;
     layer \<leftarrow> layerAt (layers d) (vis_mLayerIndex c);
     let previousVisible = visible layer;
     lm \<leftarrow> doc_layerModel h (vis_mMapDocument c);
     h1 \<leftarrow> setLayerVisible h lm (vis_mLayerIndex c) (mVisible c);
     Some (h1, c\<lparr>mVisible := previousVisible\<rparr>)
   }"

definition SetLayerVisible_undo ::
  "'f heap \<Rightarrow> SetLayerVisible \<Rightarrow> ('f heap \<times> SetLayerVisible) option" where
  "SetLayerVisible_undo h c = swap h c"

definition SetLayerVisible_redo ::
  "'f heap \<Rightarrow> SetLayerVisible \<Rightarrow> ('f heap \<times> SetLayerVisible) option" where
  "SetLayerVisible_redo h c = swap h c"

definition setOpacity :: "'f heap \<Rightarrow> 'f SetLayerOpacity \<Rightarrow> 'f \<Rightarrow> 'f heap option" where
  "setOpacity h c v = do {
     lm \<leftarrow> doc_layerModel h (opa_mMapDocument c);
     setLayerOpacity h lm (opa_mLayerIndex c) v
   }"

definition SetLayerOpacity_undo :: "'f heap \<Rightarrow> 'f SetLayerOpacity \<Rightarrow> 'f heap option" where
  "SetLayerOpacity_undo h c = setOpacity h c (mOldOpacity c)"

definition SetLayerOpacity_redo :: "'f heap \<Rightarrow> 'f SetLayerOpacity \<Rightarrow> 'f heap option" where
  "SetLayerOpacity_redo h c = setOpacity h c (mNewOpacity c)"

text \<open>\<open>mergeWith\<close> returns its result and \<open>this\<close>. Qt calls it only with a command of
  the same \<open>id\<close>, so \<open>other\<close> is a \<open>SetLayerOpacity\<close>.\<close>

definition mergeWith ::
  "'f SetLayerOpacity \<Rightarrow> 'f SetLayerOpacity \<Rightarrow> bool \<times> 'f SetLayerOpacity" where
  "mergeWith this other =
     (if \<not> (opa_mMapDocument this = opa_mMapDocument other \<and>
             opa_mLayerIndex this = opa_mLayerIndex other)
      then (False, this)
      else (True, this\<lparr>mNewOpacity := mNewOpacity other\<rparr>))"

text \<open>Modelled from the spec: the rename command is executed by calling the mutator
  \<open>renameLayer\<close> of the document's layer model with its index and name
  (renamelayer.cpp is not part of the sources).\<close>

definition RenameLayer_redo :: "'f heap \<Rightarrow> RenameLayer \<Rightarrow> 'f heap option" where
  "RenameLayer_redo h c = do {
     lm \<leftarrow> doc_layerModel h (ren_mMapDocument c);
     renameLayer h lm (ren_mLayerIndex c) (mName c)
   }"

text \<open>The virtual call \<open>cmd->redo()\<close>, as far as the heap is concerned.\<close>

definition redo :: "'f heap \<Rightarrow> 'f QUndoCommand \<Rightarrow> 'f heap option" where
  "redo h cmd =
     (case cmd of
        VisibleCmd c \<Rightarrow> map_option fst (SetLayerVisible_redo h c)
      | OpacityCmd c \<Rightarrow> SetLayerOpacity_redo h c
      | RenameCmd c \<Rightarrow> RenameLayer_redo h c)"

text \<open>The layers \<open>ls\<close> are appended to what the stack of document \<open>sp\<close> has seen.\<close>

definition noteSeen :: "'f heap \<Rightarrow> ptr \<Rightarrow> 'f Layer list \<Rightarrow> 'f heap option" where
  "noteSeen h sp ls = do {
     d \<leftarrow> h sp;
     Some (h(sp \<mapsto> d\<lparr>seenAtPush := seenAtPush d @ [ls]\<rparr>))
   }"

text \<open>\<open>QUndoStack::push\<close> of Qt executes the command by calling its \<open>redo\<close> and takes
  it over; \<open>beginMacro\<close> and \<open>endMacro\<close> open and close a group. The layers noted are
  those found on entry, before \<open>redo\<close> runs.\<close>

definition push :: "'f heap \<Rightarrow> ptr \<Rightarrow> 'f QUndoCommand \<Rightarrow> 'f heap option" where
  "push h sp cmd = do {
     d \<leftarrow> h sp;
     h1 \<leftarrow> redo h cmd;
     h2 \<leftarrow> stackCall h1 sp (Push cmd);
     noteSeen h2 sp (layers d)
   }"

definition beginMacro :: "'f heap \<Rightarrow> ptr \<Rightarrow> string \<Rightarrow> 'f heap option" where
  "beginMacro h sp label = stackCall h sp (BeginMacro label)"

definition endMacro :: "'f heap \<Rightarrow> ptr \<Rightarrow> 'f heap option" where
  "endMacro h sp = stackCall h sp EndMacro"

subsection \<open>LayerModel: edits, binding, removal\<close>

text \<open>\<open>setData\<close> returns its result and the heap. Its first three parameters are the
  floating-point operations of the opacity branch: \<open>widen\<close> is the promotion of the
  layer's \<open>float\<close> opacity to \<open>qreal\<close>, \<open>differs\<close> the comparison \<open>!=\<close> of two \<open>qreal\<close>
  values, \<open>narrow\<close> the conversion of the \<open>qreal\<close> to the \<open>float\<close> parameter of the
  command's constructor.\<close>

definition setData ::
  "('f \<Rightarrow> 'd) \<Rightarrow> ('d \<Rightarrow> 'd \<Rightarrow> bool) \<Rightarrow> ('d \<Rightarrow> 'f) \<Rightarrow>
     'f heap \<Rightarrow> ptr \<Rightarrow> QModelIndex \<Rightarrow> 'd QVariant \<Rightarrow> Role \<Rightarrow> (bool \<times> 'f heap) option" where
  "setData widen differs narrow h self index' v role = do {
     layerIndex \<leftarrow> toLayerIndex h self index';
     if layerIndex < 0 then Some (False, h)
     else do {
       lm \<leftarrow> this_model h self;
       d \<leftarrow> deref h (mMap lm);
       layer \<leftarrow> layerAt (layers d) layerIndex;
       if role = CheckStateRole then do {
         let c = toInt v;
         let vis = (c = Qt_Checked);
         if vis \<noteq> visible layer then do {
           let command = VisibleCmd (new_SetLayerVisible (mMapDocument lm) layerIndex vis);
           sp \<leftarrow> doc_undoStack h (mMapDocument lm);
           h1 \<leftarrow> push h sp command;
           Some (True, h1)
         } else Some (True, h)
       } else if role = OpacityRole then
         (case toDouble v of
            Some opacity' \<Rightarrow>
              if differs (widen (opacity layer)) opacity' then do {
                c \<leftarrow> new_SetLayerOpacity h (mMapDocument lm) layerIndex (narrow opacity');
                sp \<leftarrow> doc_undoStack h (mMapDocument lm);
                h1 \<leftarrow> push h sp (OpacityCmd c);
                Some (True, h1)
              } else Some (True, h)
          | None \<Rightarrow> Some (False, h))
       else if role = EditRole then do {
         let newName = toString v;
         if name layer \<noteq> newName then do {
           let rename = RenameCmd (new_RenameLayer (mMapDocument lm) layerIndex newName);
           sp \<leftarrow> doc_undoStack h (mMapDocument lm);
           h1 \<leftarrow> push h sp rename;
           Some (True, h1)
         } else Some (True, h)
       } else Some (False, h)
     }
   }"

definition setMapDocument :: "'f heap \<Rightarrow> ptr \<Rightarrow> ptr option \<Rightarrow> 'f heap option" where
  "setMapDocument h self mapDocument = do {
     lm \<leftarrow> this_model h self;
     if mMapDocument lm = mapDocument then Some h
     else do {
       h1 \<leftarrow> emit h self beginResetModel;
       h2 \<leftarrow> setModel h1 self (\<lambda>m. m\<lparr>mMapDocument := mapDocument\<rparr>);
       lm2 \<leftarrow> this_model h2 self;
       mp \<leftarrow> doc_map h2 (mMapDocument lm2);
       h3 \<leftarrow> setModel h2 self (\<lambda>m. m\<lparr>mMap := Some mp\<rparr>);
       emit h3 self endResetModel
     }
   }"

text \<open>\<open>takeLayerAt\<close> returns the layer and the heap.\<close>

definition takeLayerAt :: "'f heap \<Rightarrow> ptr \<Rightarrow> int \<Rightarrow> ('f Layer \<times> 'f heap) option" where
  "takeLayerAt h self i = do {
     h1 \<leftarrow> emit h self (layerAboutToBeRemoved i);
     r \<leftarrow> layerIndexToRow h1 self i;
     h2 \<leftarrow> emit h1 self (beginRemoveRows r r);
     lm \<leftarrow> this_model h2 self;
     d \<leftarrow> deref h2 (mMap lm);
     (layer, rest) \<leftarrow> map_takeLayerAt (layers d) i;
     h3 \<leftarrow> setLayers h2 (mMap lm) rest;
     h4 \<leftarrow> emit h3 self endRemoveRows;
     h5 \<leftarrow> emit h4 self (layerRemoved i);
     Some (layer, h5)
   }"

subsection \<open>LayerModel: toggleOtherLayers\<close>

text \<open>The two loops of \<open>toggleOtherLayers\<close> read \<open>mMap->layerCount()\<close> anew at every
  iteration. They end because a pushed \<open>SetLayerVisible\<close> leaves the length of every
  map and the pointers of every layer model as they are (\<open>shape\<close>), so the distance of
  \<open>i\<close> to the count (\<open>boundCount\<close>) shrinks.\<close>

definition shape :: "'f heap \<Rightarrow> ptr \<Rightarrow> (nat \<times> ptr option \<times> ptr option) option" where
  "shape h q = map_option (\<lambda>d. (length (layers d), mMapDocument (layerModel d), mMap (layerModel d))) (h q)"

definition boundCount :: "'f heap \<Rightarrow> ptr \<Rightarrow> int" where
  "boundCount h self =
     (case this_model h self of
        None \<Rightarrow> 0
      | Some lm \<Rightarrow> (case deref h (mMap lm) of None \<Rightarrow> 0 | Some d \<Rightarrow> layerCount (layers d)))"

lemma shape_setModel:
  "setModel h self f = Some h' \<Longrightarrow> (\<And>m. mMapDocument (f m) = mMapDocument m \<and> mMap (f m) = mMap m) \<Longrightarrow> shape h' q = shape h q"
  by (auto simp: setModel_def shape_def split: Option.bind_splits)

lemma shape_emit: "emit h self n = Some h' \<Longrightarrow> shape h' q = shape h q"
  by (auto simp: emit_def Let_def split: Option.bind_splits intro!: shape_setModel)

lemma shape_stackCall: "stackCall h sp c = Some h' \<Longrightarrow> shape h' q = shape h q"
  by (auto simp: stackCall_def shape_def split: Option.bind_splits)

lemma shape_updateLayer: "updateLayer h mp i f = Some h' \<Longrightarrow> shape h' q = shape h q"
  by (auto simp: updateLayer_def shape_def split: Option.bind_splits)

lemma shape_setLayerVisible: "setLayerVisible h self i v = Some h' \<Longrightarrow> shape h' q = shape h q"
  by (auto simp: setLayerVisible_def shape_emit shape_updateLayer split: Option.bind_splits)

lemma shape_noteSeen: "noteSeen h sp ls = Some h' \<Longrightarrow> shape h' q = shape h q"
  by (auto simp: noteSeen_def shape_def split: Option.bind_splits)

lemma shape_push_Visible: "push h sp (VisibleCmd c) = Some h' \<Longrightarrow> shape h' q = shape h q"
  by (auto simp: push_def redo_def SetLayerVisible_redo_def swap_def Let_def
      shape_setLayerVisible shape_stackCall shape_noteSeen split: Option.bind_splits)

lemma boundCount_shape:
  assumes "\<And>q. shape h' q = shape h q"
  shows "boundCount h' self = boundCount h self"
proof -
  have s: "shape h' self = shape h self" by (rule assms)
  show ?thesis
  proof (cases "h self")
    case None
    with s show ?thesis by (auto simp: boundCount_def this_model_def shape_def)
  next
    case (Some d)
    with s obtain d' where d': "h' self = Some d'" "mMap (layerModel d') = mMap (layerModel d)"
      by (auto simp: shape_def)
    show ?thesis
    proof (cases "mMap (layerModel d)")
      case None
      with Some d' show ?thesis by (simp add: boundCount_def this_model_def deref_def)
    next
      case (Some mp)
      have "shape h' mp = shape h mp" by (rule assms)
      then have "map_option (\<lambda>d. length (layers d)) (h' mp) = map_option (\<lambda>d. length (layers d)) (h mp)"
        by (cases "h mp"; cases "h' mp") (auto simp: shape_def)
      with Some d' \<open>h self = Some d\<close> show ?thesis
        by (cases "h mp"; cases "h' mp") (auto simp: boundCount_def this_model_def deref_def layerCount_def)
    qed
  qed
qed

lemma boundCount_push_Visible:
  "push h sp (VisibleCmd c) = Some h' \<Longrightarrow> boundCount h' self = boundCount h self"
  by (rule boundCount_shape) (rule shape_push_Visible)

text \<open>The first loop: \<open>visibility\<close> stays \<open>true\<close> unless a layer other than
  \<open>layerIndex\<close> is visible.\<close>

function toggleOtherLayers_scan :: "'f heap \<Rightarrow> ptr \<Rightarrow> int \<Rightarrow> int \<Rightarrow> bool option" where
  "toggleOtherLayers_scan h self layerIndex i =
     (case this_model h self of
        None \<Rightarrow> None
      | Some lm \<Rightarrow>
          (case deref h (mMap lm) of
             None \<Rightarrow> None
           | Some d \<Rightarrow>
               if i < layerCount (layers d) then
                 if i = layerIndex then toggleOtherLayers_scan h self layerIndex (i + 1)
                 else (case layerAt (layers d) i of
                         None \<Rightarrow> None
                       | Some layer \<Rightarrow>
                           if visible layer then Some False
                           else toggleOtherLayers_scan h self layerIndex (i + 1))
               else Some True))"
  by pat_completeness auto
termination
  by (relation "measure (\<lambda>(h, self, layerIndex, i). nat (boundCount h self - i))")
     (auto simp: boundCount_def)

text \<open>The second loop: one \<open>SetLayerVisible\<close> is pushed for every layer other than
  \<open>layerIndex\<close> whose visibility is not \<open>visibility\<close>.\<close>

function toggleOtherLayers_push ::
  "'f heap \<Rightarrow> ptr \<Rightarrow> ptr \<Rightarrow> int \<Rightarrow> bool \<Rightarrow> int \<Rightarrow> 'f heap option" where
  "toggleOtherLayers_push h self undoStack' layerIndex visibility i =
     (case this_model h self of
        None \<Rightarrow> None
      | Some lm \<Rightarrow>
          (case deref h (mMap lm) of
             None \<Rightarrow> None
           | Some d \<Rightarrow>
               if i < layerCount (layers d) then
                 if i = layerIndex
                 then toggleOtherLayers_push h self undoStack' layerIndex visibility (i + 1)
                 else (case layerAt (layers d) i of
                         None \<Rightarrow> None
                       | Some layer \<Rightarrow>
                           if visibility \<noteq> visible layer then
                             (case push h undoStack'
                                     (VisibleCmd (new_SetLayerVisible (mMapDocument lm) i visibility)) of
                                None \<Rightarrow> None
                              | Some h1 \<Rightarrow>
                                  toggleOtherLayers_push h1 self undoStack' layerIndex visibility (i + 1))
                           else toggleOtherLayers_push h self undoStack' layerIndex visibility (i + 1))
               else Some h))"
  by pat_completeness auto
termination
proof (relation "measure (\<lambda>(h, self, undoStack', layerIndex, visibility, i). nat (boundCount h self - i))", goal_cases)
  case 1
  show ?case by simp
next
  case (2 h self undoStack' layerIndex visibility i lm d)
  then show ?case by (simp add: boundCount_def)
next
  case (3 h self undoStack' layerIndex visibility i lm d layer h1)
  then have "boundCount h1 self = boundCount h self"
    by (auto intro: boundCount_push_Visible)
  with 3 show ?case by (simp add: boundCount_def)
next
  case (4 h self undoStack' layerIndex visibility i lm d layer)
  then show ?case by (simp add: boundCount_def)
qed

text \<open>\<open>tr\<close> is taken as the identity on the two labels.\<close>

definition toggleOtherLayers :: "'f heap \<Rightarrow> ptr \<Rightarrow> int \<Rightarrow> 'f heap option" where
  "toggleOtherLayers h self layerIndex = do {
     lm \<leftarrow> this_model h self;
     d \<leftarrow> deref h (mMap lm);
     if layerCount (layers d) \<le> 1 then Some h
     else do {
       visibility \<leftarrow> toggleOtherLayers_scan h self layerIndex 0;
       undoStack' \<leftarrow> doc_undoStack h (mMapDocument lm);
       h1 \<leftarrow> (if visibility then beginMacro h undoStack' ''Show Other Layers''
             else beginMacro h undoStack' ''Hide Other Layers'');
       h2 \<leftarrow> toggleOtherLayers_push h1 self undoStack' layerIndex visibility 0;
       endMacro h2 undoStack'
     }
   }"

subsection \<open>Views of the heap used in the statements\<close>

text \<open>The configuration the properties are stated for: the layer model of document
  \<open>self\<close> is bound to that document and to its map, as the document's constructor
  leaves it.\<close>

definition bound :: "'f heap \<Rightarrow> ptr \<Rightarrow> bool" where
  "bound h self =
     (case h self of
        None \<Rightarrow> False
      | Some d \<Rightarrow> mMapDocument (layerModel d) = Some self \<and> mMap (layerModel d) = Some self)"

definition layersOf :: "'f heap \<Rightarrow> ptr \<Rightarrow> 'f Layer list" where
  "layersOf h self = (case h self of None \<Rightarrow> [] | Some d \<Rightarrow> layers d)"

definition undoStackOf :: "'f heap \<Rightarrow> ptr \<Rightarrow> 'f StackCall list" where
  "undoStackOf h self = (case h self of None \<Rightarrow> [] | Some d \<Rightarrow> undoStack d)"

definition seenAtPushOf :: "'f heap \<Rightarrow> ptr \<Rightarrow> 'f Layer list list" where
  "seenAtPushOf h self = (case h self of None \<Rightarrow> [] | Some d \<Rightarrow> seenAtPush d)"

definition emittedOf :: "'f heap \<Rightarrow> ptr \<Rightarrow> (Notification \<times> 'f Layer list option) list" where
  "emittedOf h self = (case h self of None \<Rightarrow> [] | Some d \<Rightarrow> emitted (layerModel d))"

subsection \<open>Concrete documents\<close>

text \<open>Three layers, the lowest hidden and the two above it visible, in a document at
  address 7 whose layer model is bound to it; nothing has been pushed or emitted.\<close>

definition example_layers :: "real Layer list" where
  "example_layers =
     [\<lparr>name = ''ground'', visible = False, opacity = 1, layerType = TileLayerType\<rparr>,
      \<lparr>name = ''objects'', visible = True, opacity = 0.2, layerType = ObjectGroupType\<rparr>,
      \<lparr>name = ''sky'', visible = True, opacity = 0.5, layerType = ImageLayerType\<rparr>]"

definition example_doc :: "real MapDocument" where
  "example_doc =
     \<lparr>layers = example_layers, undoStack = [], seenAtPush = [],
      layerModel = \<lparr>mMapDocument = Some 7, mMap = Some 7, emitted = []\<rparr>\<rparr>"

definition example_heap :: "real heap" where
  "example_heap = Map.empty(7 \<mapsto> example_doc)"

text \<open>The same document with only its lowest layer, and the same document with a
  layer model fresh from its constructor.\<close>

definition single_layer_heap :: "real heap" where
  "single_layer_heap = Map.empty(7 \<mapsto> example_doc\<lparr>layers := [hd example_layers]\<rparr>)"

definition unbound_heap :: "real heap" where
  "unbound_heap = Map.empty(7 \<mapsto> example_doc\<lparr>layerModel := LayerModel_init\<rparr>)"

section \<open>Properties\<close>

text \<open>The equations of the two loops are unfolded one step at a time.\<close>

declare toggleOtherLayers_scan.simps [simp del]

declare toggleOtherLayers_push.simps [simp del]

subsection \<open>What the operations do on a bound model\<close>

lemma bound_model:
  assumes "bound h self"
  obtains d where "h self = Some d" "mMapDocument (layerModel d) = Some self"
    "mMap (layerModel d) = Some self" "layersOf h self = layers d"
  using assms by (auto simp: bound_def layersOf_def split: option.splits)

lemma emit_bound:
  assumes "h self = Some d" "mMap (layerModel d) = Some self"
  shows "emit h self n =
    Some (h(self \<mapsto> d\<lparr>layerModel := (layerModel d)\<lparr>emitted := emitted (layerModel d) @ [(n, Some (layers d))]\<rparr>\<rparr>))"
  using assms by (simp add: emit_def this_model_def deref_def setModel_def)

lemma updateLayer_self:
  assumes "h self = Some d" "0 \<le> i" "i < layerCount (layers d)"
  shows "updateLayer h (Some self) i f =
    Some (h(self \<mapsto> d\<lparr>layers := (layers d)[nat i := f (layers d ! nat i)]\<rparr>))"
  using assms by (simp add: updateLayer_def layerAt_def)

lemma stackCall_self:
  assumes "h self = Some d"
  shows "stackCall h self c = Some (h(self \<mapsto> d\<lparr>undoStack := undoStack d @ [c]\<rparr>))"
  using assms by (simp add: stackCall_def)

lemma noteSeen_self:
  assumes "h self = Some d"
  shows "noteSeen h self ls = Some (h(self \<mapsto> d\<lparr>seenAtPush := seenAtPush d @ [ls]\<rparr>))"
  using assms by (simp add: noteSeen_def)

lemma layerIndexToRow_bound:
  assumes "h self = Some d" "mMap (layerModel d) = Some self"
  shows "layerIndexToRow h self i = Some (layerCount (layers d) - i - 1)"
  using assms by (simp add: layerIndexToRow_def this_model_def deref_def)

lemma toLayerIndex_bound:
  assumes "h self = Some d" "mMap (layerModel d) = Some self" "isValid ix"
  shows "toLayerIndex h self ix = Some (layerCount (layers d) - row ix - 1)"
  using assms by (simp add: toLayerIndex_def this_model_def deref_def)

lemma index_bound:
  assumes "h self = Some d" "mMap (layerModel d) = Some self" "0 \<le> r" "r < layerCount (layers d)"
  shows "index h self r 0 = Some (createIndex r 0)"
  using assms by (simp add: index_def rowCount_def this_model_def isValid_def invalidIndex_def)

lemma setLayerVisible_bound:
  assumes "h self = Some d" "mMap (layerModel d) = Some self" "0 \<le> i" "i < layerCount (layers d)"
  shows "setLayerVisible h self i v =
    Some (h(self \<mapsto> d\<lparr>layers := (layers d)[nat i := (layers d ! nat i)\<lparr>visible := v\<rparr>],
       layerModel := (layerModel d)\<lparr>emitted := emitted (layerModel d) @
         [(dataChanged (createIndex (layerCount (layers d) - i - 1) 0) (createIndex (layerCount (layers d) - i - 1) 0),
            Some ((layers d)[nat i := (layers d ! nat i)\<lparr>visible := v\<rparr>])),
          (layerChanged i, Some ((layers d)[nat i := (layers d ! nat i)\<lparr>visible := v\<rparr>]))]\<rparr>\<rparr>))"
  using assms
  by (simp add: setLayerVisible_def layerIndexToRow_bound index_bound this_model_def
      updateLayer_self emit_bound layerCount_def)

lemma setLayerVisible_bound_ex:
  assumes "h self = Some d" "mMap (layerModel d) = Some self" "0 \<le> i" "i < layerCount (layers d)"
  shows "\<exists>h1 d1. setLayerVisible h self i v = Some h1 \<and> h1 self = Some d1 \<and>
     mMap (layerModel d1) = Some self \<and>
     layers d1 = (layers d)[nat i := (layers d ! nat i)\<lparr>visible := v\<rparr>]"
  using setLayerVisible_bound [where h=h and self=self, OF assms] assms by simp

lemma setLayerOpacity_bound:
  assumes "h self = Some d" "mMap (layerModel d) = Some self" "0 \<le> i" "i < layerCount (layers d)"
  shows "setLayerOpacity h self i v =
    Some (h(self \<mapsto> d\<lparr>layers := (layers d)[nat i := (layers d ! nat i)\<lparr>opacity := v\<rparr>],
       layerModel := (layerModel d)\<lparr>emitted := emitted (layerModel d) @
         [(layerChanged i, Some ((layers d)[nat i := (layers d ! nat i)\<lparr>opacity := v\<rparr>]))]\<rparr>\<rparr>))"
  using assms
  by (simp add: setLayerOpacity_def this_model_def updateLayer_self emit_bound)

lemma renameLayer_bound:
  assumes "h self = Some d" "mMap (layerModel d) = Some self" "0 \<le> i" "i < layerCount (layers d)"
  shows "renameLayer h self i v =
    Some (h(self \<mapsto> d\<lparr>layers := (layers d)[nat i := (layers d ! nat i)\<lparr>name := v\<rparr>],
       layerModel := (layerModel d)\<lparr>emitted := emitted (layerModel d) @
         [(layerAboutToBeRenamed i, Some (layers d)),
          (layerRenamed i, Some ((layers d)[nat i := (layers d ! nat i)\<lparr>name := v\<rparr>])),
          (dataChanged (createIndex (layerCount (layers d) - i - 1) 0) (createIndex (layerCount (layers d) - i - 1) 0),
            Some ((layers d)[nat i := (layers d ! nat i)\<lparr>name := v\<rparr>])),
          (layerChanged i, Some ((layers d)[nat i := (layers d ! nat i)\<lparr>name := v\<rparr>]))]\<rparr>\<rparr>))"
  using assms
  by (simp add: renameLayer_def layerIndexToRow_bound index_bound this_model_def
      updateLayer_self emit_bound layerCount_def)

lemma swap_bound:
  assumes "h self = Some d" "mMap (layerModel d) = Some self"
    "vis_mMapDocument c = Some self" "0 \<le> vis_mLayerIndex c" "vis_mLayerIndex c < layerCount (layers d)"
  shows "swap h c = 
    (case setLayerVisible h self (vis_mLayerIndex c) (mVisible c) of None \<Rightarrow> None
     | Some h1 \<Rightarrow> Some (h1, c\<lparr>mVisible := visible (layers d ! nat (vis_mLayerIndex c))\<rparr>))"
  using assms
  by (simp add: swap_def doc_map_def doc_layerModel_def layerAt_def setLayerVisible_bound)

lemma push_Visible_bound:
  assumes "h self = Some d" "mMap (layerModel d) = Some self" "0 \<le> i" "i < layerCount (layers d)"
  shows "\<exists>h1 d1. push h self (VisibleCmd (new_SetLayerVisible (Some self) i v)) = Some h1 \<and>
     h1 self = Some d1 \<and> mMap (layerModel d1) = mMap (layerModel d) \<and>
     mMapDocument (layerModel d1) = mMapDocument (layerModel d) \<and>
     layers d1 = (layers d)[nat i := (layers d ! nat i)\<lparr>visible := v\<rparr>] \<and>
     undoStack d1 = undoStack d @ [Push (VisibleCmd (new_SetLayerVisible (Some self) i v))] \<and>
     seenAtPush d1 = seenAtPush d @ [layers d]"
  using assms
  by (simp add: push_def redo_def SetLayerVisible_redo_def swap_bound new_SetLayerVisible_def
      setLayerVisible_bound stackCall_self noteSeen_self)

lemma push_Opacity_bound:
  assumes "h self = Some d" "mMap (layerModel d) = Some self"
    "opa_mMapDocument c = Some self" "0 \<le> opa_mLayerIndex c" "opa_mLayerIndex c < layerCount (layers d)"
  shows "\<exists>h1 d1. push h self (OpacityCmd c) = Some h1 \<and>
     h1 self = Some d1 \<and> mMap (layerModel d1) = mMap (layerModel d) \<and>
     mMapDocument (layerModel d1) = mMapDocument (layerModel d) \<and>
     layers d1 = (layers d)[nat (opa_mLayerIndex c) :=
        (layers d ! nat (opa_mLayerIndex c))\<lparr>opacity := mNewOpacity c\<rparr>] \<and>
     undoStack d1 = undoStack d @ [Push (OpacityCmd c)] \<and>
     seenAtPush d1 = seenAtPush d @ [layers d]"
  using assms
  by (simp add: push_def redo_def SetLayerOpacity_redo_def setOpacity_def doc_layerModel_def
      setLayerOpacity_bound stackCall_self noteSeen_self)

lemma push_Rename_bound:
  assumes "h self = Some d" "mMap (layerModel d) = Some self" "0 \<le> i" "i < layerCount (layers d)"
  shows "\<exists>h1 d1. push h self (RenameCmd (new_RenameLayer (Some self) i v)) = Some h1 \<and>
     h1 self = Some d1 \<and> mMap (layerModel d1) = mMap (layerModel d) \<and>
     mMapDocument (layerModel d1) = mMapDocument (layerModel d) \<and>
     layers d1 = (layers d)[nat i := (layers d ! nat i)\<lparr>name := v\<rparr>] \<and>
     undoStack d1 = undoStack d @ [Push (RenameCmd (new_RenameLayer (Some self) i v))] \<and>
     seenAtPush d1 = seenAtPush d @ [layers d]"
  using assms
  by (simp add: push_def redo_def RenameLayer_redo_def new_RenameLayer_def doc_layerModel_def
      renameLayer_bound stackCall_self noteSeen_self)

lemma new_SetLayerOpacity_bound:
  assumes "h self = Some d" "0 \<le> i" "i < layerCount (layers d)"
  shows "new_SetLayerOpacity h (Some self) i v =
    Some \<lparr>opa_mMapDocument = Some self, opa_mLayerIndex = i,
          mOldOpacity = opacity (layers d ! nat i), mNewOpacity = v\<rparr>"
  using assms by (simp add: new_SetLayerOpacity_def doc_map_def layerAt_def)

subsection \<open>The two loops of toggleOtherLayers\<close>

lemma scan_bound:
  assumes "h self = Some d" "mMap (layerModel d) = Some self"
  shows "toggleOtherLayers_scan h self layerIndex (int k) =
    Some (\<forall>j<length (layers d). k \<le> j \<and> int j \<noteq> layerIndex \<longrightarrow> \<not> visible (layers d ! j))"
proof (induction "length (layers d) - k" arbitrary: k)
  case 0
  then have "\<not> int k < layerCount (layers d)" by (simp add: layerCount_def)
  moreover from 0 have "\<And>j. j < length (layers d) \<Longrightarrow> \<not> k \<le> j" by simp
  ultimately show ?case
    using assms
    by (subst toggleOtherLayers_scan.simps) (auto simp: this_model_def deref_def)
next
  case (Suc m)
  then have k: "k < length (layers d)" and m: "m = length (layers d) - Suc k" by simp_all
  have next_k: "int k + 1 = int (Suc k)" by simp
  have split: "(\<forall>j<length (layers d). k \<le> j \<and> int j \<noteq> layerIndex \<longrightarrow> \<not> visible (layers d ! j)) =
     ((int k \<noteq> layerIndex \<longrightarrow> \<not> visible (layers d ! k)) \<and>
      (\<forall>j<length (layers d). Suc k \<le> j \<and> int j \<noteq> layerIndex \<longrightarrow> \<not> visible (layers d ! j)))"
    using k by (auto simp: Suc_le_eq le_less)
  show ?case
    using assms k Suc.hyps(1) [OF m]
    by (subst toggleOtherLayers_scan.simps, subst split)
       (auto simp: this_model_def deref_def layerCount_def layerAt_def next_k simp del: of_nat_Suc)
qed

lemma push_loop_bound:
  assumes "h self = Some d" "mMap (layerModel d) = Some self"
    "mMapDocument (layerModel d) = Some self" "n = length (layers d)"
  shows "\<exists>h' d'. toggleOtherLayers_push h self self layerIndex vis (int k) = Some h' \<and>
     h' self = Some d' \<and>
     layers d' = map (\<lambda>j. if int j = layerIndex \<or> j < k then layers d ! j
                          else (layers d ! j)\<lparr>visible := vis\<rparr>) [0..<n] \<and>
     undoStack d' = undoStack d @
       map (\<lambda>j. Push (VisibleCmd (new_SetLayerVisible (Some self) (int j) vis)))
         (filter (\<lambda>j. int j \<noteq> layerIndex \<and> visible (layers d ! j) \<noteq> vis) [k..<n])"
  using assms
proof (induction "n - k" arbitrary: k h d)
  case 0
  then have "\<not> int k < layerCount (layers d)" by (simp add: layerCount_def)
  moreover from 0 have "map (\<lambda>j. if int j = layerIndex \<or> j < k then layers d ! j
                          else (layers d ! j)\<lparr>visible := vis\<rparr>) [0..<n] = layers d"
    by (auto intro!: nth_equalityI)
  ultimately show ?case
    using 0
    by (subst toggleOtherLayers_push.simps) (simp add: this_model_def deref_def)
next
  case (Suc m)
  then have k: "k < n" and m: "m = n - Suc k" by simp_all
  have next_k: "int k + 1 = int (Suc k)" by simp
  have upt: "[k..<n] = k # [Suc k..<n]" using k by (simp add: upt_conv_Cons)
  let ?l = "layers d ! k"
  note d = Suc.prems
  have ki: "0 \<le> int k" "int k < layerCount (layers d)"
    using k d(4) by (simp_all add: layerCount_def)
  show ?case
  proof (cases "int k \<noteq> layerIndex \<and> visible ?l \<noteq> vis")
    case False
    have same: "map (\<lambda>j. if int j = layerIndex \<or> j < Suc k then layers d ! j
                else (layers d ! j)\<lparr>visible := vis\<rparr>) [0..<n] =
          map (\<lambda>j. if int j = layerIndex \<or> j < k then layers d ! j
                else (layers d ! j)\<lparr>visible := vis\<rparr>) [0..<n]"
      using False by (auto simp: less_Suc_eq)
    from Suc.hyps(1) [of "Suc k" h d, OF m d] obtain h' d' where r:
      "toggleOtherLayers_push h self self layerIndex vis (int (Suc k)) = Some h'"
      "h' self = Some d'"
      "layers d' = map (\<lambda>j. if int j = layerIndex \<or> j < Suc k then layers d ! j
                else (layers d ! j)\<lparr>visible := vis\<rparr>) [0..<n]"
      "undoStack d' = undoStack d @
         map (\<lambda>j. Push (VisibleCmd (new_SetLayerVisible (Some self) (int j) vis)))
           (filter (\<lambda>j. int j \<noteq> layerIndex \<and> visible (layers d ! j) \<noteq> vis) [Suc k..<n])"
      by blast
    have step: "toggleOtherLayers_push h self self layerIndex vis (int k) =
        toggleOtherLayers_push h self self layerIndex vis (int (Suc k))"
      using False d ki
      by (subst toggleOtherLayers_push.simps)
         (auto simp: this_model_def deref_def layerAt_def next_k simp del: of_nat_Suc)
    show ?thesis
      using r False unfolding step same [symmetric] upt by auto
  next
    case True
    from push_Visible_bound [where h=h and self=self and v=vis, OF d(1,2) ki]
    obtain h1 d1 where p:
      "push h self (VisibleCmd (new_SetLayerVisible (Some self) (int k) vis)) = Some h1"
      "h1 self = Some d1"
      "mMap (layerModel d1) = mMap (layerModel d)"
      "mMapDocument (layerModel d1) = mMapDocument (layerModel d)"
      "layers d1 = (layers d)[k := ?l\<lparr>visible := vis\<rparr>]"
      "undoStack d1 = undoStack d @ [Push (VisibleCmd (new_SetLayerVisible (Some self) (int k) vis))]"
      by auto
    have m1: "mMap (layerModel d1) = Some self" "mMapDocument (layerModel d1) = Some self"
      using p(3,4) d(2,3) by simp_all
    have n1: "n = length (layers d1)" using p(5) d(4) by simp
    from Suc.hyps(1) [of "Suc k" h1 d1, OF m p(2) m1 n1] obtain h' d' where r:
      "toggleOtherLayers_push h1 self self layerIndex vis (int (Suc k)) = Some h'"
      "h' self = Some d'"
      "layers d' = map (\<lambda>j. if int j = layerIndex \<or> j < Suc k then layers d1 ! j
                else (layers d1 ! j)\<lparr>visible := vis\<rparr>) [0..<n]"
      "undoStack d' = undoStack d1 @
         map (\<lambda>j. Push (VisibleCmd (new_SetLayerVisible (Some self) (int j) vis)))
           (filter (\<lambda>j. int j \<noteq> layerIndex \<and> visible (layers d1 ! j) \<noteq> vis) [Suc k..<n])"
      by blast
    have step: "toggleOtherLayers_push h self self layerIndex vis (int k) =
        toggleOtherLayers_push h1 self self layerIndex vis (int (Suc k))"
      using True d ki p(1)
      by (subst toggleOtherLayers_push.simps)
         (auto simp: this_model_def deref_def layerAt_def next_k simp del: of_nat_Suc)
    have ls: "map (\<lambda>j. if int j = layerIndex \<or> j < Suc k then layers d1 ! j
                else (layers d1 ! j)\<lparr>visible := vis\<rparr>) [0..<n] =
          map (\<lambda>j. if int j = layerIndex \<or> j < k then layers d ! j
                else (layers d ! j)\<lparr>visible := vis\<rparr>) [0..<n]"
      using True k d(4) p(5) by (auto simp: less_Suc_eq nth_list_update)
    have fl: "filter (\<lambda>j. int j \<noteq> layerIndex \<and> visible (layers d1 ! j) \<noteq> vis) [Suc k..<n] =
          filter (\<lambda>j. int j \<noteq> layerIndex \<and> visible (layers d ! j) \<noteq> vis) [Suc k..<n]"
      using p(5) by (auto intro!: filter_cong simp: nth_list_update)
    show ?thesis
      using r True p(6) unfolding step ls fl upt by auto
  qed
qed

subsection \<open>Facts about the concrete documents\<close>

lemma example_bound: "bound example_heap 7"
  by (simp add: bound_def example_heap_def example_doc_def)

lemma example_self: "example_heap 7 = Some example_doc"
  by (simp add: example_heap_def)

lemma example_layersOf: "layersOf example_heap 7 = example_layers"
  by (simp add: layersOf_def example_heap_def example_doc_def)

lemma example_count: "layerCount example_layers = 3"
  by (simp add: layerCount_def example_layers_def)

lemma example_undoStackOf: "undoStackOf example_heap 7 = []"
  by (simp add: undoStackOf_def example_heap_def example_doc_def)

lemma example_seenAtPushOf: "seenAtPushOf example_heap 7 = []"
  by (simp add: seenAtPushOf_def example_heap_def example_doc_def)

lemma example_emittedOf: "emittedOf example_heap 7 = []"
  by (simp add: emittedOf_def example_heap_def example_doc_def)

lemma example_top_row:
  "isValid (createIndex 0 0)" "row (createIndex 0 0) < layerCount (layersOf example_heap 7)"
  by (simp_all add: isValid_def createIndex_def example_layersOf example_count)

subsection \<open>Rows and layer indices\<close>

text \<open>With a count and an index that are 32-bit and not negative, the subtraction
  \<open>layerCount - index - 1\<close> does not leave the range of a 32-bit \<open>int\<close>.\<close>

lemma layerIndex_in_range:
  assumes "layerCount ls < 2 ^ 31" and "0 \<le> x" and "x < 2 ^ 31"
  shows "- (2 ^ 31) \<le> layerCount ls - x - 1 \<and> layerCount ls - x - 1 < 2 ^ 31"
  using assms by (simp add: layerCount_def)

text \<open>
  Claim C1. For every valid row \<open>r\<close> of a map with \<open>n\<close> layers, \<open>toLayerIndex\<close> yields
  \<open>n - r - 1\<close> and \<open>layerIndexToRow\<close> takes that back to \<open>r\<close>; and for every valid
  layer index \<open>i\<close>, \<open>layerIndexToRow\<close> yields \<open>n - i - 1\<close> and the model index of that
  row is mapped back to \<open>i\<close> by \<open>toLayerIndex\<close>.
\<close>

theorem C1_row_index_roundtrip:
  assumes "bound h self" and "n = layerCount (layersOf h self)"
  shows "(isValid ix \<and> row ix < n \<longrightarrow>
            toLayerIndex h self ix = Some (n - row ix - 1) \<and>
            (toLayerIndex h self ix \<bind> layerIndexToRow h self) = Some (row ix)) \<and>
         (0 \<le> i \<and> i < n \<longrightarrow>
            layerIndexToRow h self i = Some (n - i - 1) \<and>
            (layerIndexToRow h self i \<bind> (\<lambda>r. index h self r 0) \<bind> toLayerIndex h self)
              = Some i)"
  using assms
  by (auto elim!: bound_model
      simp: toLayerIndex_def layerIndexToRow_def index_def rowCount_def this_model_def
        deref_def isValid_def invalidIndex_def createIndex_def)

theorem C1_row_index_roundtrip_witness:
  "bound example_heap 7 \<and> 3 = layerCount (layersOf example_heap 7) \<and>
   isValid (createIndex 1 0) \<and> row (createIndex 1 0) < 3 \<and>
   toLayerIndex example_heap 7 (createIndex 1 0) = Some (3 - row (createIndex 1 0) - 1) \<and>
   (toLayerIndex example_heap 7 (createIndex 1 0) \<bind> layerIndexToRow example_heap 7)
     = Some (row (createIndex 1 0)) \<and>
   (0::int) \<le> 2 \<and> (2::int) < 3 \<and>
   layerIndexToRow example_heap 7 2 = Some 0 \<and>
   (layerIndexToRow example_heap 7 2 \<bind> (\<lambda>r. index example_heap 7 r 0)
      \<bind> toLayerIndex example_heap 7) = Some 2"
proof -
  note b = example_bound
  have n: "3 = layerCount (layersOf example_heap 7)"
    by (simp add: example_layersOf example_count)
  have v: "isValid (createIndex 1 0) \<and> row (createIndex 1 0) < 3"
    by (simp add: isValid_def createIndex_def)
  from C1_row_index_roundtrip [OF b n, of "createIndex 1 0" 2] b n v show ?thesis
    by (auto simp: createIndex_def)
qed

subsection \<open>The undo commands\<close>

text \<open>
  Claim C2. \<open>undo\<close> and \<open>redo\<close> of a \<open>SetLayerVisible\<close> are both the swap. Whatever the
  visibility of the layer and the value held by the command: \<open>redo\<close> sets the layer to
  the held value, the \<open>undo\<close> after it gives back the layers as they were and the
  command as it was; likewise for \<open>undo\<close> followed by \<open>redo\<close>. Two swaps in a row are
  the identity on the layers.
\<close>

theorem C2_visibility_swap_involution:
  assumes "bound h self" and "vis_mMapDocument c = Some self"
    and "0 \<le> vis_mLayerIndex c" and "vis_mLayerIndex c < layerCount (layersOf h self)"
  shows "SetLayerVisible_redo h c = swap h c \<and> SetLayerVisible_undo h c = swap h c \<and>
    (\<exists>h1 c1 h2 c2.
       SetLayerVisible_redo h c = Some (h1, c1) \<and> SetLayerVisible_undo h1 c1 = Some (h2, c2) \<and>
       layersOf h1 self = (layersOf h self)[nat (vis_mLayerIndex c) :=
           (layersOf h self ! nat (vis_mLayerIndex c))\<lparr>visible := mVisible c\<rparr>] \<and>
       layersOf h2 self = layersOf h self \<and> c2 = c) \<and>
    (\<exists>h1 c1 h2 c2.
       SetLayerVisible_undo h c = Some (h1, c1) \<and> SetLayerVisible_redo h1 c1 = Some (h2, c2) \<and>
       layersOf h1 self = (layersOf h self)[nat (vis_mLayerIndex c) :=
           (layersOf h self ! nat (vis_mLayerIndex c))\<lparr>visible := mVisible c\<rparr>] \<and>
       layersOf h2 self = layersOf h self \<and> c2 = c)"
proof -
  from assms(1) obtain d where d: "h self = Some d" "mMap (layerModel d) = Some self"
    "layersOf h self = layers d"
    by (rule bound_model)
  let ?i = "vis_mLayerIndex c"
  let ?ls1 = "(layers d)[nat ?i := (layers d ! nat ?i)\<lparr>visible := mVisible c\<rparr>]"
  from assms d have i: "0 \<le> ?i" "?i < layerCount (layers d)" by simp_all
  from setLayerVisible_bound_ex [where h=h and self=self and v="mVisible c", OF d(1,2) i]
  obtain h1 d1 where h1: "setLayerVisible h self ?i (mVisible c) = Some h1"
    and d1: "h1 self = Some d1" "mMap (layerModel d1) = Some self" "layers d1 = ?ls1"
    by blast
  let ?c1 = "c\<lparr>mVisible := visible (layers d ! nat ?i)\<rparr>"
  have s1: "swap h c = Some (h1, ?c1)"
    using swap_bound [where h=h and self=self, OF d(1,2) assms(2) i] h1 by simp
  have i1: "0 \<le> vis_mLayerIndex ?c1" "vis_mLayerIndex ?c1 < layerCount (layers d1)"
    using i d1 by (simp_all add: layerCount_def)
  have t1: "vis_mMapDocument ?c1 = Some self" using assms(2) by simp
  from setLayerVisible_bound_ex [where h=h1 and self=self and v="mVisible ?c1", OF d1(1,2) i1]
  obtain h2 d2 where h2: "setLayerVisible h1 self ?i (mVisible ?c1) = Some h2"
    and d2: "h2 self = Some d2"
      "layers d2 = (layers d1)[nat ?i := (layers d1 ! nat ?i)\<lparr>visible := mVisible ?c1\<rparr>]"
    by auto
  have s2: "swap h1 ?c1 = Some (h2, ?c1\<lparr>mVisible := visible (layers d1 ! nat ?i)\<rparr>)"
    using swap_bound [where h=h1 and self=self, OF d1(1,2) t1 i1] h2 by simp
  have n: "nat ?i < length (layers d)" using i by (simp add: layerCount_def)
  have restored: "layersOf h2 self = layersOf h self"
    using d2 d1(3) d(3) n by (simp add: layersOf_def list_update_same_conv)
  have c2: "?c1\<lparr>mVisible := visible (layers d1 ! nat ?i)\<rparr> = c"
    using d1(3) n by simp
  have l1: "layersOf h1 self = (layersOf h self)[nat ?i := (layersOf h self ! nat ?i)\<lparr>visible := mVisible c\<rparr>]"
    using d1 d(3) by (simp add: layersOf_def)
  from s1 s2 restored c2 l1 show ?thesis
    by (simp add: SetLayerVisible_redo_def SetLayerVisible_undo_def)
qed

theorem C2_visibility_swap_involution_witness:
  "bound example_heap 7 \<and>
   vis_mMapDocument \<lparr>vis_mMapDocument = Some 7, vis_mLayerIndex = 1, mVisible = False\<rparr> = Some 7 \<and>
   (0::int) \<le> 1 \<and> 1 < layerCount (layersOf example_heap 7) \<and>
   (\<exists>h1 c1 h2 c2.
      SetLayerVisible_redo example_heap
        \<lparr>vis_mMapDocument = Some 7, vis_mLayerIndex = 1, mVisible = False\<rparr> = Some (h1, c1) \<and>
      SetLayerVisible_undo h1 c1 = Some (h2, c2) \<and>
      map visible (layersOf h1 7) = [False, False, True] \<and>
      map visible (layersOf h2 7) = [False, True, True] \<and>
      c2 = \<lparr>vis_mMapDocument = Some 7, vis_mLayerIndex = 1, mVisible = False\<rparr>)"
proof -
  let ?c = "\<lparr>vis_mMapDocument = Some 7, vis_mLayerIndex = 1, mVisible = False\<rparr>"
  have t: "vis_mMapDocument ?c = Some 7" by simp
  have lo: "0 \<le> vis_mLayerIndex ?c" by simp
  have hi: "vis_mLayerIndex ?c < layerCount (layersOf example_heap 7)"
    by (simp add: example_layersOf example_count)
  from C2_visibility_swap_involution [OF example_bound t lo hi]
  obtain h1 c1 h2 c2 where
    "SetLayerVisible_redo example_heap ?c = Some (h1, c1)"
    "SetLayerVisible_undo h1 c1 = Some (h2, c2)"
    "layersOf h1 7 = (layersOf example_heap 7)[nat (vis_mLayerIndex ?c) :=
           (layersOf example_heap 7 ! nat (vis_mLayerIndex ?c))\<lparr>visible := mVisible ?c\<rparr>]"
    "layersOf h2 7 = layersOf example_heap 7" "c2 = ?c"
    by blast
  then show ?thesis
    using example_bound hi
    by (simp add: example_layersOf example_layers_def)
qed

text \<open>
  Claim C3. When \<open>b\<close> targets the document and layer index of \<open>a\<close>, \<open>mergeWith\<close>
  reports success and overwrites the new opacity of \<open>a\<close> by that of \<open>b\<close>, the old opacity
  staying; undoing the merged command then sets the layer to the old opacity of \<open>a\<close>.
  When \<open>b\<close> targets another document or layer index, \<open>mergeWith\<close> reports failure and
  leaves \<open>a\<close> as it is. The example merges \<open>a\<close> (0.2 to 0.5) with \<open>b\<close> (0.5 to 0.8).
\<close>

theorem C3_opacity_merge:
  "(opa_mMapDocument a = opa_mMapDocument b \<and> opa_mLayerIndex a = opa_mLayerIndex b \<longrightarrow>
      mergeWith a b = (True, a\<lparr>mNewOpacity := mNewOpacity b\<rparr>) \<and>
      mOldOpacity (snd (mergeWith a b)) = mOldOpacity a \<and>
      (bound h self \<and> opa_mMapDocument a = Some self \<and> 0 \<le> opa_mLayerIndex a \<and>
       opa_mLayerIndex a < layerCount (layersOf h self) \<longrightarrow>
         (\<exists>h'. SetLayerOpacity_undo h (snd (mergeWith a b)) = Some h' \<and>
               opacity (layersOf h' self ! nat (opa_mLayerIndex a)) = mOldOpacity a))) \<and>
   (\<not> (opa_mMapDocument a = opa_mMapDocument b \<and> opa_mLayerIndex a = opa_mLayerIndex b) \<longrightarrow>
      mergeWith a b = (False, a))"
proof -
  have undo: "\<exists>h'. SetLayerOpacity_undo h c = Some h' \<and>
               opacity (layersOf h' self ! nat (opa_mLayerIndex c)) = mOldOpacity c"
    if b: "bound h self" and c: "opa_mMapDocument c = Some self" "0 \<le> opa_mLayerIndex c"
      "opa_mLayerIndex c < layerCount (layersOf h self)" for c :: "'a SetLayerOpacity"
  proof -
    from b obtain d where d: "h self = Some d" "mMapDocument (layerModel d) = Some self"
      "mMap (layerModel d) = Some self" "layersOf h self = layers d"
      by (rule bound_model)
    show ?thesis
      using d c
      by (simp add: SetLayerOpacity_undo_def setOpacity_def doc_layerModel_def
          setLayerOpacity_bound layersOf_def layerCount_def)
  qed
  show ?thesis
    using undo [of "a\<lparr>mNewOpacity := mNewOpacity b\<rparr>"]
    by (auto simp: mergeWith_def)
qed

theorem C3_opacity_merge_witness:
  "opa_mMapDocument \<lparr>opa_mMapDocument = Some 7, opa_mLayerIndex = 1, mOldOpacity = 0.2::real, mNewOpacity = 0.5\<rparr>
     = opa_mMapDocument \<lparr>opa_mMapDocument = Some 7, opa_mLayerIndex = 1, mOldOpacity = 0.5::real, mNewOpacity = 0.8\<rparr> \<and>
   mergeWith \<lparr>opa_mMapDocument = Some 7, opa_mLayerIndex = 1, mOldOpacity = 0.2::real, mNewOpacity = 0.5\<rparr>
             \<lparr>opa_mMapDocument = Some 7, opa_mLayerIndex = 1, mOldOpacity = 0.5, mNewOpacity = 0.8\<rparr>
     = (True, \<lparr>opa_mMapDocument = Some 7, opa_mLayerIndex = 1, mOldOpacity = 0.2, mNewOpacity = 0.8\<rparr>) \<and>
   bound example_heap 7 \<and> 1 < layerCount (layersOf example_heap 7) \<and>
   (\<exists>h'. SetLayerOpacity_undo example_heap
           \<lparr>opa_mMapDocument = Some 7, opa_mLayerIndex = 1, mOldOpacity = 0.2, mNewOpacity = 0.8\<rparr> = Some h' \<and>
         opacity (layersOf h' 7 ! 1) = 0.2) \<and>
   mergeWith \<lparr>opa_mMapDocument = Some 7, opa_mLayerIndex = 1, mOldOpacity = 0.2::real, mNewOpacity = 0.5\<rparr>
             \<lparr>opa_mMapDocument = Some 7, opa_mLayerIndex = 2, mOldOpacity = 0.5, mNewOpacity = 0.8\<rparr>
     = (False, \<lparr>opa_mMapDocument = Some 7, opa_mLayerIndex = 1, mOldOpacity = 0.2, mNewOpacity = 0.5\<rparr>) \<and>
   mergeWith \<lparr>opa_mMapDocument = Some 7, opa_mLayerIndex = 1, mOldOpacity = 0.2::real, mNewOpacity = 0.5\<rparr>
             \<lparr>opa_mMapDocument = Some 8, opa_mLayerIndex = 1, mOldOpacity = 0.5, mNewOpacity = 0.8\<rparr>
     = (False, \<lparr>opa_mMapDocument = Some 7, opa_mLayerIndex = 1, mOldOpacity = 0.2, mNewOpacity = 0.5\<rparr>)"
proof -
  let ?a = "\<lparr>opa_mMapDocument = Some 7, opa_mLayerIndex = 1, mOldOpacity = 0.2::real, mNewOpacity = 0.5\<rparr>"
  let ?b = "\<lparr>opa_mMapDocument = Some 7, opa_mLayerIndex = 1, mOldOpacity = 0.5::real, mNewOpacity = 0.8\<rparr>"
  let ?b2 = "\<lparr>opa_mMapDocument = Some 7, opa_mLayerIndex = 2, mOldOpacity = 0.5::real, mNewOpacity = 0.8\<rparr>"
  let ?b3 = "\<lparr>opa_mMapDocument = Some 8, opa_mLayerIndex = 1, mOldOpacity = 0.5::real, mNewOpacity = 0.8\<rparr>"
  have n: "1 < layerCount (layersOf example_heap 7)"
    by (simp add: example_layersOf example_count)
  from C3_opacity_merge [of ?a ?b example_heap 7] C3_opacity_merge [of ?a ?b2 example_heap 7]
    C3_opacity_merge [of ?a ?b3 example_heap 7] example_bound n
  show ?thesis
    by auto
qed

subsection \<open>toggleOtherLayers\<close>

text \<open>
  Claim C4. On a map of at least two layers, \<open>toggleOtherLayers\<close> computes one target
  visibility, true exactly when every layer other than \<open>layerIndex\<close> is hidden. Between
  one \<open>beginMacro\<close>, labelled "Show Other Layers" for target true and "Hide Other
  Layers" for target false, and one \<open>endMacro\<close>, it pushes exactly one \<open>SetLayerVisible\<close>
  with the target for each layer other than \<open>layerIndex\<close> whose visibility differs from
  the target, in ascending order, and nothing else. Afterwards every other layer has
  the target visibility.
\<close>

theorem C4_toggleOtherLayers:
  assumes "bound h self" and "2 \<le> layerCount (layersOf h self)"
  shows "let ls = layersOf h self;
             target = (\<forall>j<length ls. int j \<noteq> layerIndex \<longrightarrow> \<not> visible (ls ! j));
             label = (if target then ''Show Other Layers'' else ''Hide Other Layers'');
             changed = filter (\<lambda>j. int j \<noteq> layerIndex \<and> visible (ls ! j) \<noteq> target)
                         [0..<length ls]
         in \<exists>h'. toggleOtherLayers h self layerIndex = Some h' \<and>
              undoStackOf h' self = undoStackOf h self @ [BeginMacro label] @
                map (\<lambda>j. Push (VisibleCmd \<lparr>vis_mMapDocument = Some self,
                                vis_mLayerIndex = int j, mVisible = target\<rparr>)) changed @
                [EndMacro] \<and>
              layersOf h' self =
                map (\<lambda>j. if int j = layerIndex then ls ! j else (ls ! j)\<lparr>visible := target\<rparr>)
                  [0..<length ls]"
proof -
  from assms(1) obtain d where d: "h self = Some d" "mMapDocument (layerModel d) = Some self"
    "mMap (layerModel d) = Some self" "layersOf h self = layers d"
    by (rule bound_model)
  define target where "target = (\<forall>j<length (layers d). int j \<noteq> layerIndex \<longrightarrow> \<not> visible (layers d ! j))"
  define label where "label = (if target then ''Show Other Layers'' else ''Hide Other Layers'')"
  have scan: "toggleOtherLayers_scan h self layerIndex 0 = Some target"
    using scan_bound [where h=h and self=self and k=0, OF d(1,3)] by (simp add: target_def)
  let ?d0 = "d\<lparr>undoStack := undoStack d @ [BeginMacro label]\<rparr>"
  let ?h0 = "h(self \<mapsto> ?d0)"
  have macro: "(if target then beginMacro h self ''Show Other Layers''
                else beginMacro h self ''Hide Other Layers'') = Some ?h0"
    using d(1) by (simp add: beginMacro_def stackCall_self label_def)
  have d0: "?h0 self = Some ?d0" "mMap (layerModel ?d0) = Some self"
    "mMapDocument (layerModel ?d0) = Some self" "length (layers d) = length (layers ?d0)"
    using d by simp_all
  from push_loop_bound [where h="?h0" and self=self and k=0 and vis=target and layerIndex=layerIndex, OF d0]
  obtain h2 d2 where loop:
    "toggleOtherLayers_push ?h0 self self layerIndex target 0 = Some h2"
    "h2 self = Some d2"
    "layers d2 = map (\<lambda>j. if int j = layerIndex then layers d ! j
                          else (layers d ! j)\<lparr>visible := target\<rparr>) [0..<length (layers d)]"
    "undoStack d2 = undoStack d @ [BeginMacro label] @
       map (\<lambda>j. Push (VisibleCmd (new_SetLayerVisible (Some self) (int j) target)))
         (filter (\<lambda>j. int j \<noteq> layerIndex \<and> visible (layers d ! j) \<noteq> target) [0..<length (layers d)])"
    by auto
  have fin: "endMacro h2 self = Some (h2(self \<mapsto> d2\<lparr>undoStack := undoStack d2 @ [EndMacro]\<rparr>))"
    using loop(2) by (simp add: endMacro_def stackCall_self)
  have run: "toggleOtherLayers h self layerIndex =
      Some (h2(self \<mapsto> d2\<lparr>undoStack := undoStack d2 @ [EndMacro]\<rparr>))"
    using d assms(2) scan macro loop(1) fin
    by (simp add: toggleOtherLayers_def this_model_def deref_def doc_undoStack_def)
  show ?thesis
    unfolding Let_def d(4) target_def [symmetric] label_def [symmetric] run
    using loop(3,4) d(1)
    by (simp add: undoStackOf_def layersOf_def new_SetLayerVisible_def)
qed

theorem C4_toggleOtherLayers_witness:
  "bound example_heap 7 \<and> 2 \<le> layerCount (layersOf example_heap 7) \<and>
   (\<exists>h'. toggleOtherLayers example_heap 7 0 = Some h' \<and>
      undoStackOf h' 7 =
        [BeginMacro ''Hide Other Layers'',
         Push (VisibleCmd \<lparr>vis_mMapDocument = Some 7, vis_mLayerIndex = 1, mVisible = False\<rparr>),
         Push (VisibleCmd \<lparr>vis_mMapDocument = Some 7, vis_mLayerIndex = 2, mVisible = False\<rparr>),
         EndMacro] \<and>
      map visible (layersOf h' 7) = [False, False, False])"
proof -
  have n: "2 \<le> layerCount (layersOf example_heap 7)"
    by (simp add: example_layersOf example_count)
  have u: "undoStackOf example_heap 7 = []"
    by (simp add: undoStackOf_def example_heap_def example_doc_def)
  have t: "(\<forall>j<length example_layers. int j \<noteq> 0 \<longrightarrow> \<not> visible (example_layers ! j)) = False"
    by (simp add: example_layers_def All_less_Suc)
  from C4_toggleOtherLayers [OF example_bound n, of 0]
  have "\<exists>h'. toggleOtherLayers example_heap 7 0 = Some h' \<and>
      undoStackOf h' 7 =
        [BeginMacro ''Hide Other Layers'',
         Push (VisibleCmd \<lparr>vis_mMapDocument = Some 7, vis_mLayerIndex = 1, mVisible = False\<rparr>),
         Push (VisibleCmd \<lparr>vis_mMapDocument = Some 7, vis_mLayerIndex = 2, mVisible = False\<rparr>),
         EndMacro] \<and>
      map visible (layersOf h' 7) = [False, False, False]"
    unfolding Let_def example_layersOf t u by (auto simp: example_layers_def)
  with example_bound n show ?thesis by simp
qed

text \<open>
  Claim C5. On a map of fewer than two layers \<open>toggleOtherLayers\<close> returns at once:
  the heap, and with it the undo stack and every layer, is unchanged.
\<close>

theorem C5_toggleOtherLayers_single:
  assumes "bound h self" and "layerCount (layersOf h self) < 2"
  shows "toggleOtherLayers h self layerIndex = Some h"
proof -
  from assms(1) obtain d where d: "h self = Some d" "mMapDocument (layerModel d) = Some self"
    "mMap (layerModel d) = Some self" "layersOf h self = layers d"
    by (rule bound_model)
  show ?thesis
    using d assms(2)
    by (simp add: toggleOtherLayers_def this_model_def deref_def)
qed

theorem C5_toggleOtherLayers_single_witness:
  "bound single_layer_heap 7 \<and> layerCount (layersOf single_layer_heap 7) < 2 \<and>
   toggleOtherLayers single_layer_heap 7 0 = Some single_layer_heap"
proof -
  have b: "bound single_layer_heap 7"
    by (simp add: bound_def single_layer_heap_def example_doc_def)
  have n: "layerCount (layersOf single_layer_heap 7) < 2"
    by (simp add: layersOf_def single_layer_heap_def layerCount_def)
  from C5_toggleOtherLayers_single [OF b n, of 0] b n show ?thesis
    by simp
qed

subsection \<open>setData\<close>

text \<open>
  Claim C6. For a valid row, \<open>setData\<close> with \<open>CheckStateRole\<close> always returns true.
  When the requested visibility is the layer's current one the heap is unchanged, so no
  command is created. When it differs, the stack receives exactly one
  \<open>SetLayerVisible\<close> with the requested value, and \<open>setData\<close> writes no layer itself:
  when \<open>push\<close> is called the map still holds the layers as they were before
  \<open>setData\<close> (\<open>seenAtPushOf\<close>), and the heap \<open>setData\<close> returns is exactly the one that
  \<open>push\<close>, called on the heap as it was before \<open>setData\<close>, yields. So the layer changes
  inside \<open>push\<close> alone, by the command's \<open>redo\<close>.
\<close>

theorem C6_setData_checkState:
  assumes "bound h self" and "isValid ix" and "row ix < layerCount (layersOf h self)"
  shows "let li = layerCount (layersOf h self) - row ix - 1;
             layer = layersOf h self ! nat li;
             requested = (toInt v = Qt_Checked);
             cmd = VisibleCmd \<lparr>vis_mMapDocument = Some self, vis_mLayerIndex = li,
                               mVisible = requested\<rparr>
         in (requested = visible layer \<longrightarrow>
               setData widen differs narrow h self ix v CheckStateRole = Some (True, h)) \<and>
            (requested \<noteq> visible layer \<longrightarrow>
               (\<exists>h'. setData widen differs narrow h self ix v CheckStateRole = Some (True, h') \<and>
                     push h self cmd = Some h' \<and>
                     undoStackOf h' self = undoStackOf h self @ [Push cmd] \<and>
                     seenAtPushOf h' self = seenAtPushOf h self @ [layersOf h self] \<and>
                     layersOf h' self = (layersOf h self)[nat li := layer\<lparr>visible := requested\<rparr>]))"
proof -
  from assms(1) obtain d where d: "h self = Some d" "mMapDocument (layerModel d) = Some self"
    "mMap (layerModel d) = Some self" "layersOf h self = layers d"
    by (rule bound_model)
  let ?li = "layerCount (layers d) - row ix - 1"
  have li: "0 \<le> ?li" "?li < layerCount (layers d)"
    using assms(2,3) d(4) by (simp_all add: isValid_def)
  from push_Visible_bound [where h=h and self=self and v="toInt v = Qt_Checked", OF d(1,3) li]
  obtain h1 d1 where p: "push h self (VisibleCmd (new_SetLayerVisible (Some self) ?li (toInt v = Qt_Checked))) = Some h1"
    "h1 self = Some d1"
    "layers d1 = (layers d)[nat ?li := (layers d ! nat ?li)\<lparr>visible := (toInt v = Qt_Checked)\<rparr>]"
    "undoStack d1 = undoStack d @ [Push (VisibleCmd (new_SetLayerVisible (Some self) ?li (toInt v = Qt_Checked)))]"
    "seenAtPush d1 = seenAtPush d @ [layers d]"
    by blast
  show ?thesis
    using d li p assms(2)
    by (auto simp: Let_def setData_def toLayerIndex_bound this_model_def deref_def layerAt_def
        doc_undoStack_def undoStackOf_def seenAtPushOf_def layersOf_def new_SetLayerVisible_def)
qed

theorem C6_setData_checkState_witness:
  "bound example_heap 7 \<and> isValid (createIndex 0 0) \<and>
   row (createIndex 0 0) < layerCount (layersOf example_heap 7) \<and>
   setData (\<lambda>x. x) (\<noteq>) (\<lambda>x. x) example_heap 7 (createIndex 0 0)
     \<lparr>toInt = 2, toDouble = None, toString = []\<rparr> CheckStateRole = Some (True, example_heap) \<and>
   (\<exists>h'. setData (\<lambda>x. x) (\<noteq>) (\<lambda>x. x) example_heap 7 (createIndex 0 0)
            \<lparr>toInt = 0, toDouble = None, toString = []\<rparr> CheckStateRole = Some (True, h') \<and>
      push example_heap 7
        (VisibleCmd \<lparr>vis_mMapDocument = Some 7, vis_mLayerIndex = 2, mVisible = False\<rparr>) = Some h' \<and>
      undoStackOf h' 7 =
        [Push (VisibleCmd \<lparr>vis_mMapDocument = Some 7, vis_mLayerIndex = 2, mVisible = False\<rparr>)] \<and>
      seenAtPushOf h' 7 = [example_layers] \<and>
      map visible (layersOf h' 7) = [False, True, False])"
proof -
  note r = example_top_row
  have li: "layerCount (layersOf example_heap 7) - row (createIndex 0 0) - 1 = 2"
    by (simp add: example_layersOf example_count createIndex_def)
  from C6_setData_checkState [where v="\<lparr>toInt = 2, toDouble = None, toString = []\<rparr>" and widen="\<lambda>x. x" and differs="(\<noteq>)" and narrow="\<lambda>x. x", OF example_bound r]
  have same: "setData (\<lambda>x. x) (\<noteq>) (\<lambda>x. x) example_heap 7 (createIndex 0 0)
     \<lparr>toInt = 2, toDouble = None, toString = []\<rparr> CheckStateRole = Some (True, example_heap)"
    unfolding Let_def li by (simp add: example_layersOf example_layers_def Qt_Checked_def)
  from C6_setData_checkState [where v="\<lparr>toInt = 0, toDouble = None, toString = []\<rparr>" and widen="\<lambda>x. x" and differs="(\<noteq>)" and narrow="\<lambda>x. x", OF example_bound r]
  have differ: "\<exists>h'. setData (\<lambda>x. x) (\<noteq>) (\<lambda>x. x) example_heap 7 (createIndex 0 0)
            \<lparr>toInt = 0, toDouble = None, toString = []\<rparr> CheckStateRole = Some (True, h') \<and>
      push example_heap 7
        (VisibleCmd \<lparr>vis_mMapDocument = Some 7, vis_mLayerIndex = 2, mVisible = False\<rparr>) = Some h' \<and>
      undoStackOf h' 7 =
        [Push (VisibleCmd \<lparr>vis_mMapDocument = Some 7, vis_mLayerIndex = 2, mVisible = False\<rparr>)] \<and>
      seenAtPushOf h' 7 = [example_layers] \<and>
      map visible (layersOf h' 7) = [False, True, False]"
    unfolding Let_def li example_undoStackOf example_seenAtPushOf
    by (auto simp: example_layersOf example_layers_def Qt_Checked_def)
  from example_bound r same differ show ?thesis by simp
qed

text \<open>
  Claim C7. For a valid row, \<open>setData\<close> with \<open>OpacityRole\<close>: a value that does not
  parse as a number is rejected (false) and the heap is unchanged; a value that
  parses is accepted (true), and one \<open>SetLayerOpacity\<close> from the layer's current opacity
  to the parsed value is pushed exactly when the parsed value differs from the
  current opacity, the heap being unchanged otherwise.
\<close>

theorem C7_setData_opacity:
  assumes "bound h self" and "isValid ix" and "row ix < layerCount (layersOf h self)"
  shows "let li = layerCount (layersOf h self) - row ix - 1;
             layer = layersOf h self ! nat li
         in (case toDouble v of
               None \<Rightarrow> setData widen differs narrow h self ix v OpacityRole = Some (False, h)
             | Some x \<Rightarrow>
                 (\<not> differs (widen (opacity layer)) x \<longrightarrow>
                    setData widen differs narrow h self ix v OpacityRole = Some (True, h)) \<and>
                 (differs (widen (opacity layer)) x \<longrightarrow>
                    (\<exists>h'. setData widen differs narrow h self ix v OpacityRole = Some (True, h') \<and>
                       undoStackOf h' self = undoStackOf h self @
                         [Push (OpacityCmd \<lparr>opa_mMapDocument = Some self, opa_mLayerIndex = li,
                             mOldOpacity = opacity layer, mNewOpacity = narrow x\<rparr>)] \<and>
                       layersOf h' self =
                         (layersOf h self)[nat li := layer\<lparr>opacity := narrow x\<rparr>])))"
proof -
  from assms(1) obtain d where d: "h self = Some d" "mMapDocument (layerModel d) = Some self"
    "mMap (layerModel d) = Some self" "layersOf h self = layers d"
    by (rule bound_model)
  let ?li = "layerCount (layers d) - row ix - 1"
  have li: "0 \<le> ?li" "?li < layerCount (layers d)"
    using assms(2,3) d(4) by (simp_all add: isValid_def)
  have pushed: "\<exists>h'. push h self (OpacityCmd \<lparr>opa_mMapDocument = Some self, opa_mLayerIndex = ?li,
           mOldOpacity = opacity (layers d ! nat ?li), mNewOpacity = narrow x\<rparr>) = Some h' \<and>
        undoStackOf h' self = undoStack d @
          [Push (OpacityCmd \<lparr>opa_mMapDocument = Some self, opa_mLayerIndex = ?li,
             mOldOpacity = opacity (layers d ! nat ?li), mNewOpacity = narrow x\<rparr>)] \<and>
        layersOf h' self = (layers d)[nat ?li := (layers d ! nat ?li)\<lparr>opacity := narrow x\<rparr>]" for x
    using push_Opacity_bound [where h=h and self=self and d=d and
        c="\<lparr>opa_mMapDocument = Some self, opa_mLayerIndex = ?li,
           mOldOpacity = opacity (layers d ! nat ?li), mNewOpacity = narrow x\<rparr>"] d li
    by (auto simp: undoStackOf_def layersOf_def)
  have pre: "setData widen differs narrow h self ix v OpacityRole =
      (case toDouble v of
         None \<Rightarrow> Some (False, h)
       | Some x \<Rightarrow>
           if differs (widen (opacity (layers d ! nat ?li))) x
           then map_option (Pair True)
             (push h self (OpacityCmd \<lparr>opa_mMapDocument = Some self, opa_mLayerIndex = ?li,
                mOldOpacity = opacity (layers d ! nat ?li), mNewOpacity = narrow x\<rparr>))
           else Some (True, h))"
    using d li assms(2)
    by (auto simp: setData_def toLayerIndex_bound this_model_def deref_def layerAt_def
        doc_undoStack_def new_SetLayerOpacity_bound map_option_case
        split: option.splits Option.bind_splits)
  show ?thesis
    unfolding Let_def d(4) pre using pushed d(1)
    by (auto simp: undoStackOf_def split: option.splits)
qed

theorem C7_setData_opacity_witness:
  "bound example_heap 7 \<and> isValid (createIndex 0 0) \<and>
   row (createIndex 0 0) < layerCount (layersOf example_heap 7) \<and>
   setData (\<lambda>x. x) (\<noteq>) (\<lambda>x. x) example_heap 7 (createIndex 0 0)
     \<lparr>toInt = 0, toDouble = None, toString = ''half''\<rparr> OpacityRole = Some (False, example_heap) \<and>
   setData (\<lambda>x. x) (\<noteq>) (\<lambda>x. x) example_heap 7 (createIndex 0 0)
     \<lparr>toInt = 0, toDouble = Some 0.5, toString = ''0.5''\<rparr> OpacityRole = Some (True, example_heap) \<and>
   (\<exists>h'. setData (\<lambda>x. x) (\<noteq>) (\<lambda>x. x) example_heap 7 (createIndex 0 0)
            \<lparr>toInt = 0, toDouble = Some 0.8, toString = ''0.8''\<rparr> OpacityRole = Some (True, h') \<and>
      undoStackOf h' 7 =
        [Push (OpacityCmd \<lparr>opa_mMapDocument = Some 7, opa_mLayerIndex = 2,
                 mOldOpacity = 0.5, mNewOpacity = 0.8\<rparr>)] \<and>
      map opacity (layersOf h' 7) = [1, 0.2, 0.8])"
proof -
  note r = example_top_row
  have li: "layerCount (layersOf example_heap 7) - row (createIndex 0 0) - 1 = 2"
    by (simp add: example_layersOf example_count createIndex_def)
  from C7_setData_opacity [where v="\<lparr>toInt = 0, toDouble = None, toString = ''half''\<rparr>" and widen="\<lambda>x. x" and differs="(\<noteq>)" and narrow="\<lambda>x. x", OF example_bound r]
  have rejected: "setData (\<lambda>x. x) (\<noteq>) (\<lambda>x. x) example_heap 7 (createIndex 0 0)
     \<lparr>toInt = 0, toDouble = None, toString = ''half''\<rparr> OpacityRole = Some (False, example_heap)"
    unfolding Let_def li by simp
  from C7_setData_opacity [where v="\<lparr>toInt = 0, toDouble = Some 0.5, toString = ''0.5''\<rparr>" and widen="\<lambda>x. x" and differs="(\<noteq>)" and narrow="\<lambda>x. x", OF example_bound r]
  have same: "setData (\<lambda>x. x) (\<noteq>) (\<lambda>x. x) example_heap 7 (createIndex 0 0)
     \<lparr>toInt = 0, toDouble = Some 0.5, toString = ''0.5''\<rparr> OpacityRole = Some (True, example_heap)"
    unfolding Let_def li by (simp add: example_layersOf example_layers_def)
  from C7_setData_opacity [where v="\<lparr>toInt = 0, toDouble = Some 0.8, toString = ''0.8''\<rparr>" and widen="\<lambda>x. x" and differs="(\<noteq>)" and narrow="\<lambda>x. x", OF example_bound r]
  have differ: "\<exists>h'. setData (\<lambda>x. x) (\<noteq>) (\<lambda>x. x) example_heap 7 (createIndex 0 0)
            \<lparr>toInt = 0, toDouble = Some 0.8, toString = ''0.8''\<rparr> OpacityRole = Some (True, h') \<and>
      undoStackOf h' 7 =
        [Push (OpacityCmd \<lparr>opa_mMapDocument = Some 7, opa_mLayerIndex = 2,
                 mOldOpacity = 0.5, mNewOpacity = 0.8\<rparr>)] \<and>
      map opacity (layersOf h' 7) = [1, 0.2, 0.8]"
    unfolding Let_def li example_undoStackOf
    by (auto simp: example_layersOf example_layers_def)
  from example_bound r rejected same differ show ?thesis by simp
qed

text \<open>
  Claim C8. For a valid row, a name edit (\<open>EditRole\<close>, the role under which the view
  submits the edited display text) is always accepted. With the layer's current name
  the heap is unchanged: no command is pushed and nothing is emitted. With another
  name exactly one rename command for that layer and name is pushed.
\<close>

theorem C8_setData_rename:
  assumes "bound h self" and "isValid ix" and "row ix < layerCount (layersOf h self)"
  shows "let li = layerCount (layersOf h self) - row ix - 1;
             layer = layersOf h self ! nat li;
             cmd = RenameCmd \<lparr>ren_mMapDocument = Some self, ren_mLayerIndex = li,
                              mName = toString v\<rparr>
         in (toString v = name layer \<longrightarrow>
               setData widen differs narrow h self ix v EditRole = Some (True, h)) \<and>
            (toString v \<noteq> name layer \<longrightarrow>
               (\<exists>h'. setData widen differs narrow h self ix v EditRole = Some (True, h') \<and>
                     push h self cmd = Some h' \<and>
                     undoStackOf h' self = undoStackOf h self @ [Push cmd]))"
proof -
  from assms(1) obtain d where d: "h self = Some d" "mMapDocument (layerModel d) = Some self"
    "mMap (layerModel d) = Some self" "layersOf h self = layers d"
    by (rule bound_model)
  let ?li = "layerCount (layers d) - row ix - 1"
  have li: "0 \<le> ?li" "?li < layerCount (layers d)"
    using assms(2,3) d(4) by (simp_all add: isValid_def)
  from push_Rename_bound [where h=h and self=self and v="toString v", OF d(1,3) li]
  obtain h1 d1 where p: "push h self (RenameCmd (new_RenameLayer (Some self) ?li (toString v))) = Some h1"
    "h1 self = Some d1"
    "undoStack d1 = undoStack d @ [Push (RenameCmd (new_RenameLayer (Some self) ?li (toString v)))]"
    by blast
  show ?thesis
    using d li p assms(2)
    by (auto simp: Let_def setData_def toLayerIndex_bound this_model_def deref_def layerAt_def
        doc_undoStack_def undoStackOf_def new_RenameLayer_def)
qed

theorem C8_setData_rename_witness:
  "bound example_heap 7 \<and> isValid (createIndex 0 0) \<and>
   row (createIndex 0 0) < layerCount (layersOf example_heap 7) \<and>
   setData (\<lambda>x. x) (\<noteq>) (\<lambda>x. x) example_heap 7 (createIndex 0 0)
     \<lparr>toInt = 0, toDouble = None, toString = ''sky''\<rparr> EditRole = Some (True, example_heap) \<and>
   (\<exists>h'. setData (\<lambda>x. x) (\<noteq>) (\<lambda>x. x) example_heap 7 (createIndex 0 0)
            \<lparr>toInt = 0, toDouble = None, toString = ''clouds''\<rparr> EditRole = Some (True, h') \<and>
      undoStackOf h' 7 =
        [Push (RenameCmd \<lparr>ren_mMapDocument = Some 7, ren_mLayerIndex = 2, mName = ''clouds''\<rparr>)])"
proof -
  note r = example_top_row
  have li: "layerCount (layersOf example_heap 7) - row (createIndex 0 0) - 1 = 2"
    by (simp add: example_layersOf example_count createIndex_def)
  from C8_setData_rename [where v="\<lparr>toInt = 0, toDouble = None, toString = ''sky''\<rparr>" and widen="\<lambda>x. x" and differs="(\<noteq>)" and narrow="\<lambda>x. x", OF example_bound r]
  have same: "setData (\<lambda>x. x) (\<noteq>) (\<lambda>x. x) example_heap 7 (createIndex 0 0)
     \<lparr>toInt = 0, toDouble = None, toString = ''sky''\<rparr> EditRole = Some (True, example_heap)"
    unfolding Let_def li by (simp add: example_layersOf example_layers_def)
  from C8_setData_rename [where v="\<lparr>toInt = 0, toDouble = None, toString = ''clouds''\<rparr>" and widen="\<lambda>x. x" and differs="(\<noteq>)" and narrow="\<lambda>x. x", OF example_bound r]
  have differ: "\<exists>h'. setData (\<lambda>x. x) (\<noteq>) (\<lambda>x. x) example_heap 7 (createIndex 0 0)
            \<lparr>toInt = 0, toDouble = None, toString = ''clouds''\<rparr> EditRole = Some (True, h') \<and>
      undoStackOf h' 7 =
        [Push (RenameCmd \<lparr>ren_mMapDocument = Some 7, ren_mLayerIndex = 2, mName = ''clouds''\<rparr>)]"
    unfolding Let_def li example_undoStackOf
    by (auto simp: example_layersOf example_layers_def)
  from example_bound r same differ show ?thesis by simp
qed

text \<open>\<open>setData\<close> has no branch for \<open>DisplayRole\<close> itself: such a call is rejected and
  changes nothing.\<close>

lemma setData_DisplayRole_rejected:
  assumes "bound h self" and "isValid ix" and "row ix < layerCount (layersOf h self)"
  shows "setData widen differs narrow h self ix v DisplayRole = Some (False, h)"
proof -
  from assms(1) obtain d where d: "h self = Some d" "mMapDocument (layerModel d) = Some self"
    "mMap (layerModel d) = Some self" "layersOf h self = layers d"
    by (rule bound_model)
  show ?thesis
    using d assms(2,3)
    by (auto simp: setData_def toLayerIndex_bound this_model_def deref_def layerAt_def isValid_def)
qed

subsection \<open>Removing a layer and binding a document\<close>

text \<open>
  Claim C9. For a valid layer index \<open>i\<close>, \<open>takeLayerAt\<close> returns the layer that was at
  \<open>i\<close> and leaves the map without it. It emits, in this order, \<open>layerAboutToBeRemoved i\<close>
  and the start of the removal of the single row \<open>layerCount - i - 1\<close>, both while
  the map still holds the layer, then the end of the row removal and \<open>layerRemoved i\<close>,
  both after the layer is gone. The undo stack is not touched.
\<close>

theorem C9_takeLayerAt:
  assumes "bound h self" and "0 \<le> i" and "i < layerCount (layersOf h self)"
  shows "\<exists>h'. takeLayerAt h self i = Some (layersOf h self ! nat i, h') \<and>
           layersOf h' self = take (nat i) (layersOf h self) @ drop (Suc (nat i)) (layersOf h self) \<and>
           emittedOf h' self = emittedOf h self @
             [(layerAboutToBeRemoved i, Some (layersOf h self)),
              (beginRemoveRows (layerCount (layersOf h self) - i - 1)
                               (layerCount (layersOf h self) - i - 1), Some (layersOf h self)),
              (endRemoveRows, Some (layersOf h' self)),
              (layerRemoved i, Some (layersOf h' self))] \<and>
           undoStackOf h' self = undoStackOf h self"
proof -
  from assms(1) obtain d where d: "h self = Some d" "mMapDocument (layerModel d) = Some self"
    "mMap (layerModel d) = Some self" "layersOf h self = layers d"
    by (rule bound_model)
  show ?thesis
    using d assms(2,3)
    by (simp add: takeLayerAt_def emit_bound layerIndexToRow_bound this_model_def deref_def
        map_takeLayerAt_def setLayers_def layersOf_def emittedOf_def undoStackOf_def)
qed

theorem C9_takeLayerAt_witness:
  "bound example_heap 7 \<and> (0::int) \<le> 1 \<and> 1 < layerCount (layersOf example_heap 7) \<and>
   (\<exists>h'. takeLayerAt example_heap 7 1 = Some (example_layers ! 1, h') \<and>
      layersOf h' 7 = [example_layers ! 0, example_layers ! 2] \<and>
      emittedOf h' 7 =
        [(layerAboutToBeRemoved 1, Some example_layers),
         (beginRemoveRows 1 1, Some example_layers),
         (endRemoveRows, Some [example_layers ! 0, example_layers ! 2]),
         (layerRemoved 1, Some [example_layers ! 0, example_layers ! 2])])"
proof -
  have n: "1 < layerCount (layersOf example_heap 7)"
    by (simp add: example_layersOf example_count)
  have z: "(0::int) \<le> 1" by simp
  from C9_takeLayerAt [OF example_bound z n]
  have "\<exists>h'. takeLayerAt example_heap 7 1 = Some (example_layers ! 1, h') \<and>
      layersOf h' 7 = [example_layers ! 0, example_layers ! 2] \<and>
      emittedOf h' 7 =
        [(layerAboutToBeRemoved 1, Some example_layers),
         (beginRemoveRows 1 1, Some example_layers),
         (endRemoveRows, Some [example_layers ! 0, example_layers ! 2]),
         (layerRemoved 1, Some [example_layers ! 0, example_layers ! 2])]"
    unfolding example_layersOf example_emittedOf example_count
    by (auto simp: example_layers_def)
  with example_bound n show ?thesis by simp
qed

text \<open>
  Claim C10. \<open>setMapDocument\<close> has no null check. Binding the null document to a model
  that is bound dereferences the null pointer: the call has no defined behaviour.
  Only on a model that was never bound is the null document accepted, as the no-op of
  re-binding the same pointer. The row count 0 of a model without document comes
  from the guard of \<open>rowCount\<close> on a null \<open>mMap\<close>; every successful call of
  \<open>setMapDocument\<close> that changes anything leaves \<open>mMap\<close> non-null, so that guard serves
  the never-bound model only.
\<close>

theorem C10_setMapDocument_null:
  assumes "h self = Some d"
  shows "(mMapDocument (layerModel d) \<noteq> None \<longrightarrow> setMapDocument h self None = None) \<and>
         (mMapDocument (layerModel d) = None \<longrightarrow> setMapDocument h self None = Some h) \<and>
         (mMap (layerModel d) = None \<longrightarrow> rowCount h self invalidIndex = Some 0) \<and>
         (\<forall>p h'. setMapDocument h self p = Some h' \<and> h' \<noteq> h \<longrightarrow>
            (\<exists>a d'. p = Some a \<and> h a \<noteq> None \<and> h' self = Some d' \<and>
               mMapDocument (layerModel d') = Some a \<and> mMap (layerModel d') = Some a))"
proof -
  have null: "setMapDocument h self None = None" if "mMapDocument (layerModel d) \<noteq> None"
    using assms that
    by (auto simp: setMapDocument_def this_model_def emit_def setModel_def doc_map_def
        split: Option.bind_splits)
  have same: "setMapDocument h self None = Some h" if "mMapDocument (layerModel d) = None"
    using assms that by (simp add: setMapDocument_def this_model_def)
  have rows: "rowCount h self invalidIndex = Some 0" if "mMap (layerModel d) = None"
    using assms that by (simp add: rowCount_def this_model_def isValid_def invalidIndex_def)
  have rebound: "\<exists>a d'. p = Some a \<and> h a \<noteq> None \<and> h' self = Some d' \<and>
       mMapDocument (layerModel d') = Some a \<and> mMap (layerModel d') = Some a"
    if "setMapDocument h self p = Some h'" "h' \<noteq> h" for p h'
    using assms that
    by (auto simp: setMapDocument_def this_model_def emit_def setModel_def doc_map_def Let_def
        split: Option.bind_splits if_splits)
  from null same rows rebound show ?thesis by blast
qed

theorem C10_setMapDocument_null_witness:
  "example_heap 7 = Some example_doc \<and> mMapDocument (layerModel example_doc) \<noteq> None \<and>
   setMapDocument example_heap 7 None = None \<and>
   unbound_heap 7 = Some (example_doc\<lparr>layerModel := LayerModel_init\<rparr>) \<and>
   mMapDocument (LayerModel_init :: real LayerModel) = None \<and>
   mMap (LayerModel_init :: real LayerModel) = None \<and>
   setMapDocument unbound_heap 7 None = Some unbound_heap \<and>
   rowCount unbound_heap 7 invalidIndex = Some 0 \<and>
   (\<exists>h' d'. setMapDocument unbound_heap 7 (Some 7) = Some h' \<and> h' \<noteq> unbound_heap \<and>
      h' 7 = Some d' \<and> mMapDocument (layerModel d') = Some 7 \<and> mMap (layerModel d') = Some 7 \<and>
      rowCount h' 7 invalidIndex = Some 3)"
proof -
  let ?u = "example_doc\<lparr>layerModel := LayerModel_init\<rparr> :: real MapDocument"
  have e: "example_heap 7 = Some example_doc" by (rule example_self)
  have u: "unbound_heap 7 = Some ?u" by (simp add: unbound_heap_def)
  have eb: "mMapDocument (layerModel example_doc) \<noteq> None" by (simp add: example_doc_def)
  have ub: "mMapDocument (layerModel ?u) = None" "mMap (layerModel ?u) = None"
    by (simp_all add: LayerModel_init_def)
  have "\<exists>h' d'. setMapDocument unbound_heap 7 (Some 7) = Some h' \<and> h' 7 = Some d' \<and>
      mMapDocument (layerModel d') = Some 7 \<and> rowCount h' 7 invalidIndex = Some 3"
    by (simp add: setMapDocument_def this_model_def emit_def setModel_def doc_map_def deref_def
        unbound_heap_def LayerModel_init_def rowCount_def isValid_def invalidIndex_def
        example_doc_def example_layers_def layerCount_def)
  then obtain h' d' where run: "setMapDocument unbound_heap 7 (Some 7) = Some h'"
    and d': "h' 7 = Some d'" "mMapDocument (layerModel d') = Some 7"
    and rows: "rowCount h' 7 invalidIndex = Some 3"
    by blast
  have ne: "h' \<noteq> unbound_heap"
    using d' u ub(1) by auto
  note bound_case = C10_setMapDocument_null [where h=example_heap and self=7, OF e]
  note fresh_case = C10_setMapDocument_null [where h=unbound_heap and self=7, OF u]
  from bound_case eb have null: "setMapDocument example_heap 7 None = None" by blast
  from fresh_case ub have same: "setMapDocument unbound_heap 7 None = Some unbound_heap"
    and zero: "rowCount unbound_heap 7 invalidIndex = Some 0" by blast+
  from fresh_case run ne have "\<exists>a d''. Some 7 = Some a \<and> unbound_heap a \<noteq> None \<and>
      h' 7 = Some d'' \<and> mMapDocument (layerModel d'') = Some a \<and> mMap (layerModel d'') = Some a"
    by blast
  with d' have m: "mMap (layerModel d') = Some 7" by auto
  from e u eb null same zero run ne rows d' m show ?thesis
    by (auto simp: LayerModel_init_def)
qed

end
